theory Spec2Isabelle
  imports Complex_Main "HOL-Library.Log_Nat" "HOL-Library.Multiset" "HOL-Library.Sublist"
begin

chapter \<open>Interview practice service: question selection, reply validation, session summary\<close>

text \<open>
  The development embeds the Go package \<^verbatim>\<open>interview\<close> (files \<^verbatim>\<open>questions.go\<close>,
  \<^verbatim>\<open>analyzer.go\<close> and the type declarations next to them). All definitions come first,
  the lemmas and the theorems of the specification follow.

  Conventions of the embedding.
  \<^item> Go's \<^verbatim>\<open>int\<close> is taken with 64 bits, its size on amd64 and arm64. A value of that
    type is an \<^typ>\<open>int\<close> from \<open>-2^63\<close> to
    \<open>2^63 - 1\<close>, and the sums, differences and products that the package computes on
    scores, totals and criteria counts wrap around (\<open>go_add\<close>, \<open>go_sub\<close>, \<open>go_mul\<close> below).
    Counters bounded by seven or by the length of a string or a slice, lengths and indices
    cannot leave that range and are computed without the reduction.
  \<^item> Go's \<^verbatim>\<open>float64\<close> is a \<^typ>\<open>real\<close> that is representable in binary64; every
    arithmetic operation and every conversion rounds its exact result to the nearest
    representable number, ties to the even significand (\<open>float64\<close> below). The exponent
    range is not modelled: the values of the package stay far inside it, and no division
    by zero is reachable (each one is guarded in the source).
  \<^item> Strings are byte lists.
  \<^item> What the package obtains from outside (the file system, the JSON decoder, the HTTP
    exchange, the random number generator, the clock, the iteration order of a Go map) is
    a parameter of the function that uses it.
\<close>

section \<open>Go arithmetic\<close>

text \<open>Round half to even, to an integer.\<close>

definition rne :: "real \<Rightarrow> int" where
  "rne r = (let f = \<lfloor>r\<rfloor>; d = r - of_int f in
     if d < 1/2 then f else if 1/2 < d then f + 1 else if even f then f else f + 1)"

definition pow2 :: "int \<Rightarrow> real" where
  "pow2 k = (if 0 \<le> k then 2 ^ nat k else 1 / 2 ^ nat (- k))"

text \<open>The binary exponent of a positive number: \<open>2^e \<le> x < 2^(e+1)\<close>.\<close>

definition ilog2 :: "real \<Rightarrow> int" where
  "ilog2 x = (if 1 \<le> x then bitlen \<lfloor>x\<rfloor> - 1 else - bitlen (\<lceil>1 / x\<rceil> - 1))"

text \<open>Rounding of a positive number to a significand of 53 bits.\<close>

definition round_pos :: "real \<Rightarrow> real" where
  "round_pos x = (let e = ilog2 x in of_int (rne (x * pow2 (52 - e))) * pow2 (e - 52))"

definition float64 :: "real \<Rightarrow> real" where
  "float64 x = (if x = 0 then 0 else if 0 < x then round_pos x else - round_pos (- x))"

text \<open>Two's complement on 64 bits: the representative of \<open>x\<close> modulo \<open>2^64\<close> that lies
  between \<open>-2^63\<close> and \<open>2^63 - 1\<close>.\<close>

definition wrap64 :: "int \<Rightarrow> int" where
  "wrap64 x = (x + 2 ^ 63) mod 2 ^ 64 - 2 ^ 63"

text \<open>The operators \<^verbatim>\<open>+\<close>, \<^verbatim>\<open>-\<close> and \<^verbatim>\<open>*\<close> on \<^verbatim>\<open>int\<close>.\<close>

definition go_add :: "int \<Rightarrow> int \<Rightarrow> int" where
  "go_add a b = wrap64 (a + b)"

definition go_sub :: "int \<Rightarrow> int \<Rightarrow> int" where
  "go_sub a b = wrap64 (a - b)"

definition go_mul :: "int \<Rightarrow> int \<Rightarrow> int" where
  "go_mul a b = wrap64 (a * b)"

text \<open>The conversion \<^verbatim>\<open>int(f)\<close> of a float truncates towards zero. For a float whose
  truncation is outside the range of \<^verbatim>\<open>int\<close> Go leaves the result to the implementation;
  \<open>go_int\<close> is the truncation there as well.\<close>

definition go_int :: "real \<Rightarrow> int" where
  "go_int f = (if 0 \<le> f then \<lfloor>f\<rfloor> else \<lceil>f\<rceil>)"

text \<open>Integer division \<^verbatim>\<open>a / b\<close> truncates towards zero (the divisor is never zero where
  the package divides).\<close>

definition go_quot :: "int \<Rightarrow> int \<Rightarrow> int" where
  "go_quot a b =
    (if (0 \<le> a) = (0 \<le> b) then \<bar>a\<bar> div \<bar>b\<bar> else - (\<bar>a\<bar> div \<bar>b\<bar>))"

section \<open>Data model\<close>

record Question =
  ID :: string
  Category :: string
  Text :: string
  NextID :: string
  FollowupCandidates :: "string list"
  Tags :: "string list"

text \<open>A criterion is \<^verbatim>\<open>*int\<close>: \<open>None\<close> is the nil pointer (JSON null or absent).\<close>

record AnalysisScores =
  MigrationIntent :: "int option"
  FinancialUnderstanding :: "int option"
  AcademicCredibility :: "int option"
  SpecificityResearch :: "int option"
  Consistency :: "int option"
  CommunicationQuality :: "int option"
  RedFlags :: "int option"
  TotalScore :: int

record FeedbackByCriterion =
  MigrationIntentText :: string
  FinancialUnderstandingText :: string
  AcademicCredibilityText :: string
  SpecificityResearchText :: string
  ConsistencyText :: string
  CommunicationQualityText :: string
  RedFlagsText :: string

record StructuredFeedback =
  Overall :: string
  ByCriterion :: FeedbackByCriterion
  Improvements :: "string list"

record AnalysisResponse =
  Scores :: AnalysisScores
  Classification :: string
  Feedback :: StructuredFeedback

record AnalysisRecord =
  RecordID :: string
  RecordSessionID :: string
  RecordQuestion :: string
  RecordAnswer :: string
  Analysis :: AnalysisResponse
  CreatedAt :: nat

record SessionSummary =
  SessionID :: string
  TotalQuestions :: int
  AverageScore :: real
  OverallGrade :: string
  StrongAreas :: "string list"
  WeakAreas :: "string list"
  CommonRedFlags :: "string list"
  Recommendation :: string
  CompletedAt :: nat

section \<open>analyzer.go: scores, classification, grade, percentage\<close>

definition calculateTotalScore :: "AnalysisScores \<Rightarrow> int" where
  "calculateTotalScore scores =
    (let total = 0;
         total = (case MigrationIntent scores of None \<Rightarrow> total | Some v \<Rightarrow> go_add total v);
         total = (case FinancialUnderstanding scores of None \<Rightarrow> total | Some v \<Rightarrow> go_add total v);
         total = (case AcademicCredibility scores of None \<Rightarrow> total | Some v \<Rightarrow> go_add total v);
         total = (case SpecificityResearch scores of None \<Rightarrow> total | Some v \<Rightarrow> go_add total v);
         total = (case Consistency scores of None \<Rightarrow> total | Some v \<Rightarrow> go_add total v);
         total = (case CommunicationQuality scores of None \<Rightarrow> total | Some v \<Rightarrow> go_add total v);
         total = (case RedFlags scores of None \<Rightarrow> total | Some v \<Rightarrow> go_add total v)
     in total)"

definition countRelevantCriteria :: "AnalysisScores \<Rightarrow> int" where
  "countRelevantCriteria scores =
    (let count = 0;
         count = (case MigrationIntent scores of None \<Rightarrow> count | Some v \<Rightarrow> count + 1);
         count = (case FinancialUnderstanding scores of None \<Rightarrow> count | Some v \<Rightarrow> count + 1);
         count = (case AcademicCredibility scores of None \<Rightarrow> count | Some v \<Rightarrow> count + 1);
         count = (case SpecificityResearch scores of None \<Rightarrow> count | Some v \<Rightarrow> count + 1);
         count = (case Consistency scores of None \<Rightarrow> count | Some v \<Rightarrow> count + 1);
         count = (case CommunicationQuality scores of None \<Rightarrow> count | Some v \<Rightarrow> count + 1);
         count = (case RedFlags scores of None \<Rightarrow> count | Some v \<Rightarrow> count + 1)
     in count)"

text \<open>\<^verbatim>\<open>float64(totalScore) / float64(maxScore) * 100\<close>: two conversions, a division and a
  multiplication, each rounded.\<close>

definition percentage :: "int \<Rightarrow> int \<Rightarrow> real" where
  "percentage totalScore maxScore =
     float64 (float64 (float64 (of_int totalScore) / float64 (of_int maxScore)) * 100)"

definition getClassificationFromScore :: "int \<Rightarrow> int \<Rightarrow> string" where
  "getClassificationFromScore totalScore criteriaCount =
    (if criteriaCount = 0 then ''Weak''
     else let maxScore = go_mul criteriaCount 5 in
       if criteriaCount = 3 then
         (if totalScore \<ge> 13 then ''Excellent''
          else if totalScore \<ge> 10 then ''Good''
          else if totalScore \<ge> 7 then ''Average''
          else ''Weak'')
       else if criteriaCount = 4 then
         (if totalScore \<ge> 17 then ''Excellent''
          else if totalScore \<ge> 13 then ''Good''
          else if totalScore \<ge> 9 then ''Average''
          else ''Weak'')
       else if criteriaCount = 5 then
         (if totalScore \<ge> 21 then ''Excellent''
          else if totalScore \<ge> 17 then ''Good''
          else if totalScore \<ge> 12 then ''Average''
          else ''Weak'')
       else
         (if percentage totalScore maxScore \<ge> 85 then ''Excellent''
          else if percentage totalScore maxScore \<ge> 70 then ''Good''
          else if percentage totalScore maxScore \<ge> 50 then ''Average''
          else ''Weak''))"

text \<open>The constants \<^verbatim>\<open>0.85\<close>, \<^verbatim>\<open>0.70\<close> and \<^verbatim>\<open>0.50\<close> are converted to \<^verbatim>\<open>float64\<close>, the
  products are rounded, and \<^verbatim>\<open>int(...)\<close> truncates.\<close>

definition getGradeFromScore :: "int \<Rightarrow> int \<Rightarrow> string" where
  "getGradeFromScore score criteriaCount =
    (if criteriaCount = 0 then ''D''
     else let maxScore = go_mul criteriaCount 5;
              excellentThreshold = go_int (float64 (float64 (of_int maxScore) * float64 (85 / 100)));
              goodThreshold = go_int (float64 (float64 (of_int maxScore) * float64 (70 / 100)));
              averageThreshold = go_int (float64 (float64 (of_int maxScore) * float64 (50 / 100)))
          in if score \<ge> excellentThreshold then ''A''
             else if score \<ge> goodThreshold then ''B''
             else if score \<ge> averageThreshold then ''C''
             else ''D'')"

definition generateRecommendation :: "real \<Rightarrow> AnalysisRecord list \<Rightarrow> string" where
  "generateRecommendation avgScore analyses =
    (if avgScore \<ge> 32 then
       ''Excellent performance! You're well-prepared. Focus on maintaining confidence and natural delivery during the actual interview.''
     else if avgScore \<ge> 25 then
       ''Good foundation. Review the specific feedback for each answer and practice the improved versions. Focus on being more specific and confident in your responses.''
     else if avgScore \<ge> 18 then
       ''You need more practice. Focus on providing specific examples, showing strong ties to your home country, and demonstrating clear post-graduation plans.''
     else
       ''Significant improvement needed. Consider working with an advisor to strengthen your answers. Focus on clarity, specificity, and addressing visa officer concerns about immigrant intent.'')"

definition ScoreToPercentage :: "int \<Rightarrow> int \<Rightarrow> real" where
  "ScoreToPercentage score criteriaCount =
    (if criteriaCount = 0 then 0
     else let maxScore = go_mul criteriaCount 5;
              minScore = go_mul criteriaCount 1;
              score = (if score < minScore then minScore else score);
              score = (if score > maxScore then maxScore else score);
              scoreRange = go_sub maxScore minScore
          in if scoreRange = 0 then 100
             else float64 (float64 (of_int (go_sub score minScore))
                           * float64 (100 / float64 (of_int scoreRange))))"

section \<open>analyzer.go: the reply of the service\<close>

subsection \<open>Library functions of package strings\<close>

text \<open>
  \<^verbatim>\<open>strings.TrimSpace\<close> removes leading and trailing white space. The six ASCII white
  space bytes are modelled; Go also removes the multi-byte code points U+0085, U+00A0 and
  the other Unicode spaces.
\<close>

definition isSpace :: "char \<Rightarrow> bool" where
  "isSpace c = (c \<in> {CHR 0x09, CHR 0x0A, CHR 0x0B, CHR 0x0C, CHR 0x0D, CHR '' ''})"

definition TrimSpace :: "string \<Rightarrow> string" where
  "TrimSpace s = rev (dropWhile isSpace (rev (dropWhile isSpace s)))"

definition TrimPrefix :: "string \<Rightarrow> string \<Rightarrow> string" where
  "TrimPrefix s p = (if prefix p s then drop (length p) s else s)"

definition TrimSuffix :: "string \<Rightarrow> string \<Rightarrow> string" where
  "TrimSuffix s p = (if suffix p s then take (length s - length p) s else s)"

text \<open>\<^verbatim>\<open>strings.Index(s, "{")\<close> for a pattern of one byte: the first position, or \<open>-1\<close>.\<close>

fun Index :: "string \<Rightarrow> char \<Rightarrow> int" where
  "Index [] c = - 1"
| "Index (x # xs) c =
     (if x = c then 0 else let r = Index xs c in if r = - 1 then - 1 else r + 1)"

subsection \<open>Errors and the HTTP exchange\<close>

text \<open>One constructor for each \<^verbatim>\<open>fmt.Errorf\<close> of \<^verbatim>\<open>callGPTAPI\<close>, named after its message.\<close>

datatype api_error =
    FailedToMarshalRequest
  | FailedToCreateRequest
  | FailedToSendRequest
  | FailedToReadResponse
  | APIError int string
  | FailedToUnmarshalResponse
  | EmptyResponseFromAPI
  | NoJSONObjectFound
  | UnmatchedBraces
  | FailedToParseAnalysis

text \<open>The errors raised before the text of the reply is looked at come from the request, the
  network and the provider; the last three come from decoding the reply.\<close>

fun transport_error :: "api_error \<Rightarrow> bool" where
  "transport_error NoJSONObjectFound = False"
| "transport_error UnmatchedBraces = False"
| "transport_error FailedToParseAnalysis = False"
| "transport_error e = True"

definition decode_error :: "api_error \<Rightarrow> bool" where
  "decode_error e = (e \<in> {NoJSONObjectFound, UnmatchedBraces, FailedToParseAnalysis})"

text \<open>What building the request and the round trip deliver: a failure of one of the four
  steps, or a status code with the body that was read.\<close>

datatype http_exchange =
    MarshalFails
  | NewRequestFails
  | DoFails
  | ReadAllFails
  | Response int string

subsection \<open>callGPTAPI, from the content of the first choice on\<close>

text \<open>Lines 367 to 373: trim, remove the markdown code fences, trim again.\<close>

definition stripFences :: "string \<Rightarrow> string" where
  "stripFences content =
    (let content = TrimSpace content;
         content = TrimPrefix content ''```json'';
         content = TrimPrefix content ''```'';
         content = TrimSuffix content ''```'';
         content = TrimSpace content
     in content)"

text \<open>
  The loop \<^verbatim>\<open>for i := jsonStart; i < len(content); i++\<close>, run on the bytes from position
  \<open>i\<close> on; the result is \<^verbatim>\<open>jsonEnd\<close>, which stays \<open>-1\<close> when the loop ends without
  \<^verbatim>\<open>break\<close>.
\<close>

fun findJsonEnd :: "string \<Rightarrow> int \<Rightarrow> int \<Rightarrow> int" where
  "findJsonEnd [] i braceCount = - 1"
| "findJsonEnd (c # cs) i braceCount =
     (if c = CHR ''{'' then findJsonEnd cs (i + 1) (braceCount + 1)
      else if c = CHR ''}'' then
        (if braceCount - 1 = 0 then i + 1 else findJsonEnd cs (i + 1) (braceCount - 1))
      else findJsonEnd cs (i + 1) braceCount)"

text \<open>Lines 375 to 401: the text between the first opening brace and its closing brace.\<close>

definition extractJSON :: "string \<Rightarrow> api_error + string" where
  "extractJSON content =
    (let jsonStart = Index content CHR ''{'' in
     if jsonStart = - 1 then Inl NoJSONObjectFound
     else let jsonEnd = findJsonEnd (drop (nat jsonStart) content) jsonStart 0 in
       if jsonEnd = - 1 then Inl UnmatchedBraces
       else Inr (take (nat (jsonEnd - jsonStart)) (drop (nat jsonStart) content)))"

text \<open>Lines 408 to 420: the total and the classification are computed again. The message
  that \<^verbatim>\<open>log.Printf\<close> writes on a mismatch is not part of the result.\<close>

definition recompute :: "AnalysisResponse \<Rightarrow> AnalysisResponse" where
  "recompute analysis =
    (let analysis = analysis\<lparr>Scores := (Scores analysis)
                       \<lparr>TotalScore := calculateTotalScore (Scores analysis)\<rparr>\<rparr>;
         criteriaCount = countRelevantCriteria (Scores analysis);
         correctClassification =
           getClassificationFromScore (TotalScore (Scores analysis)) criteriaCount
     in if Classification analysis \<noteq> correctClassification
        then analysis\<lparr>Classification := correctClassification\<rparr>
        else analysis)"

text \<open>
  \<open>unmarshalAnalysis\<close> is \<^verbatim>\<open>json.Unmarshal\<close> into an \<^verbatim>\<open>AnalysisResponse\<close>, \<open>None\<close> when it
  returns an error.
\<close>

definition decodeContent ::
    "(string \<Rightarrow> AnalysisResponse option) \<Rightarrow> string \<Rightarrow> api_error + AnalysisResponse" where
  "decodeContent unmarshalAnalysis content =
    (case extractJSON (stripFences content) of
       Inl e \<Rightarrow> Inl e
     | Inr jsonContent \<Rightarrow>
        (case unmarshalAnalysis jsonContent of
           None \<Rightarrow> Inl FailedToParseAnalysis
         | Some analysis \<Rightarrow> Inr (recompute analysis)))"

text \<open>
  \<open>unmarshalResponse\<close> is \<^verbatim>\<open>json.Unmarshal\<close> into the \<^verbatim>\<open>GPTResponse\<close> envelope; it gives
  the message contents of the choices. The messages sent do not influence how the reply
  is treated and are left out.
\<close>

definition callGPTAPI ::
    "(string \<Rightarrow> string list option) \<Rightarrow> (string \<Rightarrow> AnalysisResponse option)
      \<Rightarrow> http_exchange \<Rightarrow> api_error + AnalysisResponse" where
  "callGPTAPI unmarshalResponse unmarshalAnalysis exchange =
    (case exchange of
       MarshalFails \<Rightarrow> Inl FailedToMarshalRequest
     | NewRequestFails \<Rightarrow> Inl FailedToCreateRequest
     | DoFails \<Rightarrow> Inl FailedToSendRequest
     | ReadAllFails \<Rightarrow> Inl FailedToReadResponse
     | Response statusCode body \<Rightarrow>
         if statusCode \<noteq> 200 then Inl (APIError statusCode body)
         else (case unmarshalResponse body of
                 None \<Rightarrow> Inl FailedToUnmarshalResponse
               | Some choices \<Rightarrow>
                   (case choices of
                      [] \<Rightarrow> Inl EmptyResponseFromAPI
                    | content # others \<Rightarrow> decodeContent unmarshalAnalysis content)))"

section \<open>analyzer.go: the session summary\<close>

datatype summary_error = NoAnalysesProvided

text \<open>
  The three helpers count per criterion in a Go map and then range over the map. The
  order of that iteration is not specified; the lists are given here in the order in
  which the source names the criteria.
\<close>

definition criterionScores :: "AnalysisScores \<Rightarrow> (string \<times> int option) list" where
  "criterionScores scores =
    [(''migration_intent'', MigrationIntent scores),
     (''financial_understanding'', FinancialUnderstanding scores),
     (''academic_credibility'', AcademicCredibility scores),
     (''specificity_research'', SpecificityResearch scores),
     (''consistency'', Consistency scores),
     (''communication_quality'', CommunicationQuality scores),
     (''red_flags'', RedFlags scores)]"

definition criterionNames :: "string list" where
  "criterionNames =
    [''migration_intent'', ''financial_understanding'', ''academic_credibility'',
     ''specificity_research'', ''consistency'', ''communication_quality'', ''red_flags'']"

definition formatCriterionName :: "string \<Rightarrow> string" where
  "formatCriterionName criterion =
    (if criterion = ''migration_intent'' then ''Strong return intent''
     else if criterion = ''financial_understanding'' then ''Financial understanding''
     else if criterion = ''academic_credibility'' then ''Academic credibility''
     else if criterion = ''specificity_research'' then ''Specificity & research''
     else if criterion = ''consistency'' then ''Consistency''
     else if criterion = ''communication_quality'' then ''Communication quality''
     else if criterion = ''red_flags'' then ''No red flags''
     else criterion)"

text \<open>How many records have the criterion non-nil with a score that satisfies \<open>P\<close>.\<close>

definition countWhere :: "(int \<Rightarrow> bool) \<Rightarrow> AnalysisRecord list \<Rightarrow> string \<Rightarrow> int" where
  "countWhere P analyses criterion =
    int (length (filter (\<lambda>record.
      case map_of (criterionScores (Scores (Analysis record))) criterion of
        Some (Some v) \<Rightarrow> P v
      | _ \<Rightarrow> False) analyses))"

text \<open>A criterion is a key of the map once it was counted.\<close>

definition extractCommonStrengths :: "AnalysisRecord list \<Rightarrow> string list" where
  "extractCommonStrengths analyses =
    map formatCriterionName (filter (\<lambda>criterion.
      let count = countWhere (\<lambda>v. v \<ge> 4) analyses criterion
      in count \<ge> 1 \<and> count \<ge> go_quot (int (length analyses)) 2) criterionNames)"

definition extractCommonWeaknesses :: "AnalysisRecord list \<Rightarrow> string list" where
  "extractCommonWeaknesses analyses =
    map formatCriterionName (filter (\<lambda>criterion.
      let count = countWhere (\<lambda>v. v \<le> 3) analyses criterion
      in count \<ge> 1 \<and> count \<ge> go_quot (int (length analyses)) 2) criterionNames)"

definition redFlagText :: "string \<Rightarrow> string" where
  "redFlagText criterion =
    (if criterion = ''migration_intent'' then ''Shows potential immigration intent''
     else if criterion = ''financial_understanding'' then ''Poor financial understanding or planning''
     else if criterion = ''academic_credibility'' then ''Weak academic fit or credibility''
     else if criterion = ''specificity_research'' then ''Lacks specific knowledge or research''
     else if criterion = ''consistency'' then ''Inconsistent answers or contradictions''
     else if criterion = ''communication_quality'' then ''Poor communication or clarity''
     else ''Major red flags detected'')"

definition extractCommonRedFlags :: "AnalysisRecord list \<Rightarrow> string list" where
  "extractCommonRedFlags analyses =
    map redFlagText (filter (\<lambda>criterion.
      countWhere (\<lambda>v. v \<le> 2) analyses criterion \<ge> 1) criterionNames)"

text \<open>The loop that adds up the stored totals and the criteria counts.\<close>

fun sumScores :: "AnalysisRecord list \<Rightarrow> int \<times> int \<Rightarrow> int \<times> int" where
  "sumScores [] (totalScore, totalCriteriaCount) = (totalScore, totalCriteriaCount)"
| "sumScores (record # rest) (totalScore, totalCriteriaCount) =
     sumScores rest (go_add totalScore (TotalScore (Scores (Analysis record))),
                     go_add totalCriteriaCount (countRelevantCriteria (Scores (Analysis record))))"

text \<open>\<open>now\<close> is the value of \<^verbatim>\<open>time.Now()\<close>.\<close>

definition GenerateSessionSummary ::
    "AnalysisRecord list \<Rightarrow> nat \<Rightarrow> summary_error + SessionSummary" where
  "GenerateSessionSummary analyses now =
    (if length analyses = 0 then Inl NoAnalysesProvided
     else let (totalScore, totalCriteriaCount) = sumScores analyses (0, 0);
              avgScore = float64 (float64 (of_int totalScore)
                                  / float64 (of_int (int (length analyses))));
              avgCriteriaCount = go_quot totalCriteriaCount (int (length analyses));
              avgCriteriaCount = (if avgCriteriaCount = 0 then 1 else avgCriteriaCount)
          in Inr \<lparr>SessionID = [],
                  TotalQuestions = int (length analyses),
                  AverageScore = avgScore,
                  OverallGrade = getGradeFromScore (go_int avgScore) avgCriteriaCount,
                  StrongAreas = extractCommonStrengths analyses,
                  WeakAreas = extractCommonWeaknesses analyses,
                  CommonRedFlags = extractCommonRedFlags analyses,
                  Recommendation = generateRecommendation avgScore analyses,
                  CompletedAt = now\<rparr>)"

section \<open>questions.go: the question bank\<close>

text \<open>\<^verbatim>\<open>QuestionsByCategory\<close>, a \<^verbatim>\<open>map[string][]string\<close>.\<close>

type_synonym bank = "string \<Rightarrow> string list option"

definition QuestionSelectionRules :: "(string \<times> int) list" where
  "QuestionSelectionRules =
    [(''Purpose of Study'', 1),
     (''Academic Background'', 1),
     (''University Choice'', 1),
     (''Financial Capability'', 1),
     (''Post-Graduation Plans'', 1),
     (''Immigration Intent'', 1)]"

datatype load_error =
    ReadQuestionsFile
  | UnmarshalQuestions
  | RequiredCategoryNotFound string

text \<open>
  \<open>readFile\<close> is \<^verbatim>\<open>os.ReadFile\<close> and \<open>unmarshal\<close> is \<^verbatim>\<open>json.Unmarshal\<close> into a
  \<^verbatim>\<open>map[string][]string\<close>, both \<open>None\<close> on an error. \<open>rangeOrder\<close> is the order in which
  \<^verbatim>\<open>range QuestionSelectionRules\<close> visits the keys. The function gets the global
  \<^verbatim>\<open>QuestionsByCategory\<close> and returns the error, if any, together with the new global: the
  assignment to the global precedes the validation.
\<close>

definition LoadQuestions ::
    "(string \<Rightarrow> string option) \<Rightarrow> (string \<Rightarrow> bank option) \<Rightarrow> string list
      \<Rightarrow> string \<Rightarrow> bank \<Rightarrow> load_error option \<times> bank" where
  "LoadQuestions readFile unmarshal rangeOrder path QuestionsByCategory =
    (case readFile path of
       None \<Rightarrow> (Some ReadQuestionsFile, QuestionsByCategory)
     | Some data \<Rightarrow>
        (case unmarshal data of
           None \<Rightarrow> (Some UnmarshalQuestions, QuestionsByCategory)
         | Some categories \<Rightarrow>
            (let QuestionsByCategory = categories in
             case find (\<lambda>category. QuestionsByCategory category = None) rangeOrder of
               Some category \<Rightarrow> (Some (RequiredCategoryNotFound category), QuestionsByCategory)
             | None \<Rightarrow> (None, QuestionsByCategory))))"

section \<open>questions.go: selection of the questions of a session\<close>

text \<open>
  The random number generator: \<open>Shuffle g n\<close> gives the index pairs with which
  \<^verbatim>\<open>rand.Shuffle(n, swap)\<close> calls \<open>swap\<close>, \<open>Intn g n\<close> the value of \<^verbatim>\<open>rand.Intn(n)\<close>, each
  with the next state of the generator.
\<close>

record 'g rand =
  Shuffle :: "'g \<Rightarrow> nat \<Rightarrow> (nat \<times> nat) list \<times> 'g"
  Intn :: "'g \<Rightarrow> nat \<Rightarrow> nat \<times> 'g"

text \<open>The contract of package \<^verbatim>\<open>math/rand\<close>: indices below \<open>n\<close>.\<close>

definition rand_ok :: "'g rand \<Rightarrow> bool" where
  "rand_ok R \<longleftrightarrow>
     (\<forall>g n. \<forall>(i, j) \<in> set (fst (Shuffle R g n)). i < n \<and> j < n) \<and>
     (\<forall>g n. 0 < n \<longrightarrow> fst (Intn R g n) < n)"

text \<open>The closure \<^verbatim>\<open>available[i], available[j] = available[j], available[i]\<close>.\<close>

definition swapAt :: "string list \<Rightarrow> nat \<times> nat \<Rightarrow> string list" where
  "swapAt available p = (case p of (i, j) \<Rightarrow> available[i := available ! j, j := available ! i])"

definition shuffled :: "'g rand \<Rightarrow> 'g \<Rightarrow> string list \<Rightarrow> string list \<times> 'g" where
  "shuffled R g available =
    (case Shuffle R g (length available) of (pairs, g') \<Rightarrow> (foldl swapAt available pairs, g'))"

text \<open>\<^verbatim>\<open>%d\<close> of a number that is not negative.\<close>

fun decimal :: "nat \<Rightarrow> string" where
  "decimal n =
    (if n < 10 then [char_of (48 + n)] else decimal (n div 10) @ [char_of (48 + n mod 10)])"

text \<open>The loop ranges over the code points; every byte of a code point beyond ASCII fails
  both tests, as the code point does.\<close>

fun sanitizeCategory :: "string \<Rightarrow> string" where
  "sanitizeCategory [] = []"
| "sanitizeCategory (char # rest) =
    (let n = (of_char char :: nat) in
     if (97 \<le> n \<and> n \<le> 122) \<or> (65 \<le> n \<and> n \<le> 90) \<or> (48 \<le> n \<and> n \<le> 57)
       then char # sanitizeCategory rest
     else if char = CHR '' '' \<or> char = CHR ''/'' then CHR ''_'' # sanitizeCategory rest
     else sanitizeCategory rest)"

text \<open>The question that is appended to \<^verbatim>\<open>selectedQuestions\<close>.\<close>

definition newQuestion :: "Question list \<Rightarrow> string \<Rightarrow> string \<Rightarrow> Question" where
  "newQuestion selectedQuestions category text =
    \<lparr>ID = ''q'' @ decimal (length selectedQuestions + 1) @ ''_'' @ sanitizeCategory category,
     Category = category, Text = text, NextID = [], FollowupCandidates = [], Tags = []\<rparr>"

definition easyCategories :: "string list" where
  "easyCategories =
    [''Purpose of Study'', ''Academic Background'', ''University Choice'',
     ''Post-Graduation Plans'']"

definition allCategories :: "string list" where
  "allCategories =
    [''Purpose of Study'', ''Academic Background'', ''University Choice'',
     ''Financial Capability'', ''Post-Graduation Plans'', ''Immigration Intent'']"

text \<open>Easy level: the loop over \<^verbatim>\<open>easyCategories\<close>.\<close>

fun easyLoop ::
    "'g rand \<Rightarrow> bank \<Rightarrow> string list \<Rightarrow> Question list \<times> 'g \<Rightarrow> Question list \<times> 'g" where
  "easyLoop R Q [] st = st"
| "easyLoop R Q (category # rest) (selectedQuestions, g) =
    (case Q category of
       None \<Rightarrow> easyLoop R Q rest (selectedQuestions, g)
     | Some questions \<Rightarrow>
        if length questions = 0 then easyLoop R Q rest (selectedQuestions, g)
        else (case shuffled R g questions of (available, g') \<Rightarrow>
          easyLoop R Q rest
            (selectedQuestions @ [newQuestion selectedQuestions category (available ! 0)], g')))"

text \<open>Medium level: the first loop, which also records the chosen texts.\<close>

fun mediumLoop ::
    "'g rand \<Rightarrow> bank \<Rightarrow> string list \<Rightarrow> Question list \<times> string set \<times> 'g
      \<Rightarrow> Question list \<times> string set \<times> 'g" where
  "mediumLoop R Q [] st = st"
| "mediumLoop R Q (category # rest) (selectedQuestions, selectedTexts, g) =
    (case Q category of
       None \<Rightarrow> mediumLoop R Q rest (selectedQuestions, selectedTexts, g)
     | Some questions \<Rightarrow>
        if length questions = 0 then mediumLoop R Q rest (selectedQuestions, selectedTexts, g)
        else (case shuffled R g questions of (available, g') \<Rightarrow>
          let selectedText = available ! 0 in
          mediumLoop R Q rest
            (selectedQuestions @ [newQuestion selectedQuestions category selectedText],
             insert selectedText selectedTexts, g')))"

text \<open>Medium level: the extra question from a random category.\<close>

definition mediumExtra ::
    "'g rand \<Rightarrow> bank \<Rightarrow> Question list \<times> string set \<times> 'g \<Rightarrow> Question list" where
  "mediumExtra R Q st =
    (case st of (selectedQuestions, selectedTexts, g) \<Rightarrow>
      if length allCategories > 0 then
        (case Intn R g (length allCategories) of (n, g1) \<Rightarrow>
          let randomCategory = allCategories ! n in
          (case Q randomCategory of
             None \<Rightarrow> selectedQuestions
           | Some questions \<Rightarrow>
              if length questions > 0 then
                (let available = filter (\<lambda>q. q \<notin> selectedTexts) questions in
                 if length available > 0 then
                   (case shuffled R g1 available of (available, g2) \<Rightarrow>
                      selectedQuestions
                        @ [newQuestion selectedQuestions randomCategory (available ! 0)])
                 else selectedQuestions)
              else selectedQuestions))
      else selectedQuestions)"

text \<open>Hard level: the inner loop \<^verbatim>\<open>for i := 0; i < count; i++\<close> over \<^verbatim>\<open>available[:count]\<close>.\<close>

fun hardTake ::
    "string \<Rightarrow> string list \<Rightarrow> Question list \<times> string set \<Rightarrow> Question list \<times> string set" where
  "hardTake category [] st = st"
| "hardTake category (selectedText # rest) (selectedQuestions, selectedTexts) =
    hardTake category rest
      (selectedQuestions @ [newQuestion selectedQuestions category selectedText],
       insert selectedText selectedTexts)"

text \<open>Hard level: the body of the loop over the categories.\<close>

definition hardCategory ::
    "'g rand \<Rightarrow> bank \<Rightarrow> string \<Rightarrow> Question list \<times> string set \<times> 'g
      \<Rightarrow> Question list \<times> string set \<times> 'g" where
  "hardCategory R Q category st =
    (case st of (selectedQuestions, selectedTexts, g) \<Rightarrow>
      (case Q category of
         None \<Rightarrow> st
       | Some questions \<Rightarrow>
          if length questions = 0 then st
          else let available = filter (\<lambda>q. q \<notin> selectedTexts) questions in
            if length available = 0 then st
            else (case shuffled R g available of (available, g') \<Rightarrow>
              let count = 2;
                  count = (if length available < count then length available else count)
              in (case hardTake category (take count available)
                          (selectedQuestions, selectedTexts) of
                    (selectedQuestions, selectedTexts) \<Rightarrow>
                      (selectedQuestions, selectedTexts, g')))))"

fun hardLoop ::
    "'g rand \<Rightarrow> bank \<Rightarrow> string list \<Rightarrow> Question list \<times> string set \<times> 'g
      \<Rightarrow> Question list \<times> string set \<times> 'g" where
  "hardLoop R Q [] st = st"
| "hardLoop R Q (category # rest) st = hardLoop R Q rest (hardCategory R Q category st)"

text \<open>\<open>g\<close> is the generator after \<^verbatim>\<open>rand.Seed(time.Now().UnixNano())\<close>; the slice that was
  never appended to is the empty list.\<close>

definition SelectQuestionsForSession ::
    "'g rand \<Rightarrow> bank \<Rightarrow> string \<Rightarrow> 'g \<Rightarrow> Question list" where
  "SelectQuestionsForSession R QuestionsByCategory level g =
    (if level = ''easy'' then fst (easyLoop R QuestionsByCategory easyCategories ([], g))
     else if level = ''medium'' then
       mediumExtra R QuestionsByCategory
         (mediumLoop R QuestionsByCategory allCategories ([], {}, g))
     else if level = ''hard'' \<or> level = [] then
       fst (hardLoop R QuestionsByCategory allCategories ([], {}, g))
     else [])"

section \<open>Notions of the specification\<close>

text \<open>The criterion scores that are present, in the order of the record.\<close>

definition presentScores :: "AnalysisScores \<Rightarrow> int list" where
  "presentScores scores =
    concat (map (\<lambda>criterion. case criterion of None \<Rightarrow> [] | Some v \<Rightarrow> [v])
      [MigrationIntent scores, FinancialUnderstanding scores, AcademicCredibility scores,
       SpecificityResearch scores, Consistency scores, CommunicationQuality scores,
       RedFlags scores])"

text \<open>An analysis as the decoder delivers it, with another value for \<^verbatim>\<open>total_score\<close>.\<close>

definition withTotal :: "int \<Rightarrow> AnalysisResponse \<Rightarrow> AnalysisResponse" where
  "withTotal t analysis = analysis\<lparr>Scores := (Scores analysis)\<lparr>TotalScore := t\<rparr>\<rparr>"

text \<open>
  The threshold table. \<open>claimedTier\<close> is the table as the specification words it: fixed
  cuts for 3, 4 and 5 criteria, shares of the maximum otherwise. \<open>tier\<close> adds the row that
  the source has for an analysis without any criterion.
\<close>

definition tierByCuts :: "int \<Rightarrow> int \<Rightarrow> int \<Rightarrow> int \<Rightarrow> string" where
  "tierByCuts excellent good average totalScore =
    (if totalScore \<ge> excellent then ''Excellent''
     else if totalScore \<ge> good then ''Good''
     else if totalScore \<ge> average then ''Average''
     else ''Weak'')"

definition tierByShare :: "int \<Rightarrow> int \<Rightarrow> string" where
  "tierByShare maxScore totalScore =
    (if real_of_int totalScore \<ge> 85 / 100 * real_of_int maxScore then ''Excellent''
     else if real_of_int totalScore \<ge> 70 / 100 * real_of_int maxScore then ''Good''
     else if real_of_int totalScore \<ge> 50 / 100 * real_of_int maxScore then ''Average''
     else ''Weak'')"

definition claimedTier :: "int \<Rightarrow> int \<Rightarrow> string" where
  "claimedTier totalScore n =
    (if n = 3 then tierByCuts 13 10 7 totalScore
     else if n = 4 then tierByCuts 17 13 9 totalScore
     else if n = 5 then tierByCuts 21 17 12 totalScore
     else tierByShare (n * 5) totalScore)"

definition tier :: "int \<Rightarrow> int \<Rightarrow> string" where
  "tier totalScore n = (if n = 0 then ''Weak'' else claimedTier totalScore n)"

definition withClassification :: "string \<Rightarrow> AnalysisResponse \<Rightarrow> AnalysisResponse" where
  "withClassification c analysis = analysis\<lparr>Classification := c\<rparr>"

text \<open>The grade of a session as the specification words it: the mean as a share of the
  maximum.\<close>

definition percentGrade :: "real \<Rightarrow> real \<Rightarrow> string" where
  "percentGrade mean maxScore =
    (if mean \<ge> 85 / 100 * maxScore then ''A''
     else if mean \<ge> 70 / 100 * maxScore then ''B''
     else if mean \<ge> 50 / 100 * maxScore then ''C''
     else ''D'')"

text \<open>
  Braces counted byte by byte, inside string literals too, as the extraction counts them.
  \<open>balancedFrom d s\<close>: starting at nesting depth \<open>d\<close>, the depth never falls below zero
  along \<open>s\<close> and is zero at its end. \<open>staysOpen d s\<close>: the depth stays positive along
  \<open>s\<close>, so a brace that was opened before \<open>s\<close> is not closed in it.
\<close>

definition braceStep :: "char \<Rightarrow> int" where
  "braceStep c = (if c = CHR ''{'' then 1 else if c = CHR ''}'' then - 1 else 0)"

fun balancedFrom :: "int \<Rightarrow> string \<Rightarrow> bool" where
  "balancedFrom d [] = (d = 0)"
| "balancedFrom d (c # cs) = (0 \<le> d + braceStep c \<and> balancedFrom (d + braceStep c) cs)"

fun staysOpen :: "int \<Rightarrow> string \<Rightarrow> bool" where
  "staysOpen d [] = True"
| "staysOpen d (c # cs) = (0 < d + braceStep c \<and> staysOpen (d + braceStep c) cs)"

text \<open>An object text: an opening brace, a body with balanced braces, a closing brace.\<close>

definition bracedObject :: "string \<Rightarrow> bool" where
  "bracedObject obj =
    (case obj of
       [] \<Rightarrow> False
     | c # cs \<Rightarrow> c = CHR ''{'' \<and> cs \<noteq> [] \<and> last cs = CHR ''}'' \<and> balancedFrom 0 (butlast cs))"

text \<open>The bytes that trimming the reply can remove.\<close>

definition trimmable :: "char set" where
  "trimmable = {c. isSpace c} \<union> set ''```json''"

text \<open>The categories that the selection rules name.\<close>

definition requiredCategories :: "string list" where
  "requiredCategories = map fst QuestionSelectionRules"

text \<open>
  Conditions on a bank. \<open>questionsOf\<close> reads a category, absent or not. \<open>separate\<close>: no
  text belongs to two of the categories. \<open>enoughFresh Q seen categories\<close>: taken in turn,
  every category lists at least two questions whose text is neither in \<open>seen\<close> nor listed
  by a category before it.
\<close>

definition questionsOf :: "bank \<Rightarrow> string \<Rightarrow> string list" where
  "questionsOf Q category = (case Q category of None \<Rightarrow> [] | Some questions \<Rightarrow> questions)"

definition separate :: "bank \<Rightarrow> string list \<Rightarrow> bool" where
  "separate Q categories \<longleftrightarrow>
     (\<forall>c\<in>set categories. \<forall>c'\<in>set categories.
        c \<noteq> c' \<longrightarrow> set (questionsOf Q c) \<inter> set (questionsOf Q c') = {})"

fun enoughFresh :: "bank \<Rightarrow> string set \<Rightarrow> string list \<Rightarrow> bool" where
  "enoughFresh Q seen [] = True"
| "enoughFresh Q seen (category # rest) =
     (2 \<le> length (filter (\<lambda>q. q \<notin> seen) (questionsOf Q category)) \<and>
      enoughFresh Q (seen \<union> set (questionsOf Q category)) rest)"

section \<open>Examples\<close>

text \<open>A generator that lets \<^verbatim>\<open>rand.Shuffle\<close> exchange the last element with the first and
  \<^verbatim>\<open>rand.Intn(n)\<close> return \<open>n - 1\<close>.\<close>

definition lastFirstRand :: "unit rand" where
  "lastFirstRand =
    \<lparr>Shuffle = (\<lambda>g n. (if 2 \<le> n then [(n - 1, 0)] else [], g)),
     Intn = (\<lambda>g n. (n - 1, g))\<rparr>"

definition exampleBank :: bank where
  "exampleBank = map_of
    [(''Purpose of Study'', [''P1'', ''P2'', ''P3'']),
     (''Academic Background'', [''A1'', ''A2'']),
     (''University Choice'', [''U1'', ''U2'', ''U3'']),
     (''Financial Capability'', [''F1'', ''F2'']),
     (''Post-Graduation Plans'', [''G1'', ''G2'']),
     (''Immigration Intent'', [''I1'', ''I2''])]"

definition noFeedback :: StructuredFeedback where
  "noFeedback =
    \<lparr>Overall = [],
     ByCriterion = \<lparr>MigrationIntentText = [], FinancialUnderstandingText = [],
       AcademicCredibilityText = [], SpecificityResearchText = [], ConsistencyText = [],
       CommunicationQualityText = [], RedFlagsText = []\<rparr>,
     Improvements = []\<rparr>"

text \<open>The analysis of an answer in the category Financial Capability; the service states
  a total and a classification that do not fit the scores.\<close>

definition financialAnalysis :: AnalysisResponse where
  "financialAnalysis =
    \<lparr>Scores = \<lparr>MigrationIntent = None, FinancialUnderstanding = Some 4,
       AcademicCredibility = None, SpecificityResearch = None, Consistency = None,
       CommunicationQuality = Some 5, RedFlags = Some 5, TotalScore = 35\<rparr>,
     Classification = ''Weak'', Feedback = noFeedback\<rparr>"

text \<open>A reply in which every criterion is null and that calls itself excellent.\<close>

definition nullAnalysis :: AnalysisResponse where
  "nullAnalysis =
    \<lparr>Scores = \<lparr>MigrationIntent = None, FinancialUnderstanding = None,
       AcademicCredibility = None, SpecificityResearch = None, Consistency = None,
       CommunicationQuality = None, RedFlags = None, TotalScore = 0\<rparr>,
     Classification = ''Excellent'', Feedback = noFeedback\<rparr>"

text \<open>A reply with the largest \<^verbatim>\<open>int\<close> as one score and 1 as another.\<close>

definition largeScoreAnalysis :: AnalysisResponse where
  "largeScoreAnalysis =
    \<lparr>Scores = \<lparr>MigrationIntent = Some 9223372036854775807, FinancialUnderstanding = Some 1,
       AcademicCredibility = None, SpecificityResearch = None, Consistency = None,
       CommunicationQuality = None, RedFlags = None, TotalScore = 0\<rparr>,
     Classification = ''Excellent'', Feedback = noFeedback\<rparr>"

text \<open>Records of answers with seven criteria and the stored totals 29 and 32.\<close>

definition recordOf :: "AnalysisScores \<Rightarrow> AnalysisRecord" where
  "recordOf scores =
    \<lparr>RecordID = [], RecordSessionID = [], RecordQuestion = [], RecordAnswer = [],
     Analysis = \<lparr>Scores = scores, Classification = ''Good'', Feedback = noFeedback\<rparr>,
     CreatedAt = 0\<rparr>"

definition scores29 :: AnalysisScores where
  "scores29 =
    \<lparr>MigrationIntent = Some 4, FinancialUnderstanding = Some 4, AcademicCredibility = Some 4,
     SpecificityResearch = Some 4, Consistency = Some 4, CommunicationQuality = Some 4,
     RedFlags = Some 5, TotalScore = 29\<rparr>"

definition scores32 :: AnalysisScores where
  "scores32 =
    \<lparr>MigrationIntent = Some 5, FinancialUnderstanding = Some 4, AcademicCredibility = Some 4,
     SpecificityResearch = Some 4, Consistency = Some 5, CommunicationQuality = Some 5,
     RedFlags = Some 5, TotalScore = 32\<rparr>"

text \<open>A decoder that accepts one object text, and a reply that wraps this object in prose
  and a fenced block.\<close>

definition onlyObjectDecoder :: "string \<Rightarrow> AnalysisResponse option" where
  \<open>onlyObjectDecoder s = (if s = ''{"scores":{}}'' then Some financialAnalysis else None)\<close>

definition fencedReply :: string where
  \<open>fencedReply = ''Here is my evaluation:'' @ [CHR 0x0A] @ ''```json'' @ [CHR 0x0A]
      @ ''{"scores":{}}'' @ [CHR 0x0A] @ ''```'' @ [CHR 0x0A] @ ''Good luck!''\<close>

text \<open>A bank in which a required category is present and empty.\<close>

definition emptyCategoryBank :: bank where
  "emptyCategoryBank = map_of
    [(''Purpose of Study'', []),
     (''Academic Background'', [''A1'', ''A2'']),
     (''University Choice'', [''U1'', ''U2'', ''U3'']),
     (''Financial Capability'', [''F1'', ''F2'']),
     (''Post-Graduation Plans'', [''G1'', ''G2'']),
     (''Immigration Intent'', [''I1'', ''I2''])]"

text \<open>Banks in which texts occur more than once.\<close>

definition sameTextBank :: bank where
  "sameTextBank = map_of
    [(''Purpose of Study'', [''Why this program?'']),
     (''Academic Background'', [''Why this program?'']),
     (''University Choice'', [''Why this program?'']),
     (''Financial Capability'', [''Why this program?'']),
     (''Post-Graduation Plans'', [''Why this program?'']),
     (''Immigration Intent'', [''Why this program?''])]"

definition repeatedTextBank :: bank where
  "repeatedTextBank = map_of [(''Purpose of Study'', [''Why this program?'', ''Why this program?''])]"

definition sharedBank :: bank where
  "sharedBank = map_of
    [(''Purpose of Study'', [''Q1'', ''Q2'']),
     (''Academic Background'', [''Q1'', ''Q2'']),
     (''University Choice'', [''Q1'', ''Q2'']),
     (''Financial Capability'', [''Q1'', ''Q2'']),
     (''Post-Graduation Plans'', [''Q1'', ''Q2'']),
     (''Immigration Intent'', [''Q1'', ''Q2''])]"

section \<open>Lemmas on the arithmetic of \<^verbatim>\<open>int\<close>\<close>

lemma wrap64_id:
  assumes "- (2 ^ 63) \<le> x" "x < 2 ^ 63"
  shows "wrap64 x = x"
proof -
  have "0 \<le> x + 2 ^ 63" "x + 2 ^ 63 < 2 ^ 64"
    using assms by simp_all
  then have "(x + 2 ^ 63) mod 2 ^ 64 = x + 2 ^ 63"
    by (rule mod_pos_pos_trivial)
  then show ?thesis
    by (simp add: wrap64_def)
qed

lemma wrap64_range: "- (2 ^ 63) \<le> wrap64 x" "wrap64 x < 2 ^ 63"
proof -
  have "0 \<le> (x + 2 ^ 63) mod (2 ^ 64 :: int)" "(x + 2 ^ 63) mod (2 ^ 64 :: int) < 2 ^ 64"
    by simp_all
  then show "- (2 ^ 63) \<le> wrap64 x" "wrap64 x < 2 ^ 63"
    by (simp_all add: wrap64_def)
qed

lemma wrap64_add_left: "wrap64 (wrap64 a + b) = wrap64 (a + b)"
proof -
  have "(wrap64 a + b + 2 ^ 63) mod 2 ^ 64 = ((a + 2 ^ 63) mod 2 ^ 64 + b) mod 2 ^ 64"
    by (simp add: wrap64_def algebra_simps)
  also have "\<dots> = (a + 2 ^ 63 + b) mod 2 ^ 64"
    by (rule mod_add_left_eq)
  finally show ?thesis
    by (simp add: wrap64_def algebra_simps)
qed

lemma wrap64_0: "wrap64 0 = 0"
  by (simp add: wrap64_def)

lemma go_mul_small:
  assumes "0 \<le> n" "n \<le> 7" "0 \<le> k" "k \<le> 5"
  shows "go_mul n k = n * k"
proof -
  have "0 \<le> n * k"
    using assms by simp
  moreover have "n * k \<le> 7 * 5"
    using assms by (intro mult_mono) simp_all
  ultimately show ?thesis
    unfolding go_mul_def by (intro wrap64_id) simp_all
qed

section \<open>Lemmas on rounding\<close>

lemma pow2_powi: "pow2 k = 2 powi k"
  by (simp add: pow2_def power_int_def field_simps)

lemma pow2_pos: "0 < pow2 k"
  by (simp add: pow2_def)

lemma pow2_add: "pow2 (a + b) = pow2 a * pow2 b"
  by (simp add: pow2_powi power_int_add)

lemma pow2_mono: "a \<le> b \<Longrightarrow> pow2 a \<le> pow2 b"
  by (simp add: pow2_powi power_int_increasing)

lemma pow2_nat: "pow2 (int n) = 2 ^ n"
  by (simp add: pow2_def)

lemma ilog2_ge1:
  assumes "1 \<le> x"
  shows "pow2 (ilog2 x) \<le> x" and "x < pow2 (ilog2 x + 1)"
proof -
  define n where "n = \<lfloor>x\<rfloor>"
  have n: "0 < n" "of_int n \<le> x" "x < of_int n + 1"
    using assms floor_correct [of x] by (simp_all add: n_def)
  have b: "2 ^ nat (bitlen n - 1) \<le> n" "n < 2 ^ nat (bitlen n)"
    using bitlen_bounds [OF n(1)] by auto
  have b1: "1 \<le> bitlen n"
    using n(1) by (simp add: bitlen_alt_def)
  have e: "ilog2 x = bitlen n - 1"
    using assms by (simp add: ilog2_def n_def)
  have "pow2 (ilog2 x) = of_int (2 ^ nat (bitlen n - 1))"
    using b1 by (simp add: e pow2_def)
  also have "\<dots> \<le> of_int n"
    using b(1) by (simp only: of_int_le_iff)
  finally show "pow2 (ilog2 x) \<le> x"
    using n(2) by linarith
  have "n + 1 \<le> 2 ^ nat (bitlen n)"
    using b(2) by simp
  then have "real_of_int (n + 1) \<le> of_int (2 ^ nat (bitlen n))"
    by (simp only: of_int_le_iff)
  moreover have "pow2 (ilog2 x + 1) = of_int (2 ^ nat (bitlen n))"
    using b1 by (simp add: e pow2_def)
  ultimately show "x < pow2 (ilog2 x + 1)"
    using n(3) by simp
qed

lemma ilog2_lt1:
  assumes "0 < x" "x < 1"
  shows "pow2 (ilog2 x) \<le> x" and "x < pow2 (ilog2 x + 1)"
proof -
  define m where "m = \<lceil>1 / x\<rceil> - 1"
  have y: "1 < 1 / x"
    using assms by simp
  have m: "0 < m" "of_int m < 1 / x" "1 / x \<le> of_int m + 1"
    using y ceiling_correct [of "1 / x"] by (simp_all add: m_def)
  have b: "2 ^ nat (bitlen m - 1) \<le> m" "m < 2 ^ nat (bitlen m)"
    using bitlen_bounds [OF m(1)] by auto
  have b1: "1 \<le> bitlen m"
    using m(1) by (simp add: bitlen_alt_def)
  have e: "ilog2 x = - bitlen m"
    using assms by (simp add: ilog2_def m_def)
  have "m + 1 \<le> 2 ^ nat (bitlen m)"
    using b(2) by simp
  then have "real_of_int (m + 1) \<le> of_int (2 ^ nat (bitlen m))"
    by (simp only: of_int_le_iff)
  then have "1 / x \<le> 2 ^ nat (bitlen m)"
    using m(3) by simp
  then have "1 / 2 ^ nat (bitlen m) \<le> x"
    using assms(1) by (simp add: field_simps)
  then show "pow2 (ilog2 x) \<le> x"
    using b1 by (simp add: e pow2_def)
  have "(2::real) ^ nat (bitlen m - 1) \<le> of_int m"
  proof -
    have "real_of_int (2 ^ nat (bitlen m - 1)) \<le> of_int m"
      using b(1) by (simp only: of_int_le_iff)
    then show ?thesis by simp
  qed
  then have lt: "2 ^ nat (bitlen m - 1) < 1 / x"
    using m(2) by linarith
  then have "x < 1 / 2 ^ nat (bitlen m - 1)"
    using assms(1) by (simp add: field_simps)
  moreover have "pow2 (ilog2 x + 1) = 1 / 2 ^ nat (bitlen m - 1)"
    using b1 by (cases "bitlen m = 1") (simp_all add: e pow2_def)
  ultimately show "x < pow2 (ilog2 x + 1)"
    by simp
qed

lemma ilog2_bounds:
  assumes "0 < x"
  shows "pow2 (ilog2 x) \<le> x" and "x < pow2 (ilog2 x + 1)"
  using assms ilog2_ge1 [of x] ilog2_lt1 [of x] by (cases "1 \<le> x"; simp)+

lemma ilog2_mono:
  assumes "0 < x" "x \<le> y"
  shows "ilog2 x \<le> ilog2 y"
proof (rule ccontr)
  assume "\<not> ilog2 x \<le> ilog2 y"
  then have "ilog2 y + 1 \<le> ilog2 x" by simp
  then have "pow2 (ilog2 y + 1) \<le> pow2 (ilog2 x)" by (rule pow2_mono)
  moreover have "y < pow2 (ilog2 y + 1)" using assms by (intro ilog2_bounds) simp
  moreover have "pow2 (ilog2 x) \<le> x" using assms by (intro ilog2_bounds)
  ultimately show False using assms(2) by simp
qed

lemma rne_of_int: "rne (of_int k) = k"
  by (simp add: rne_def)

lemma rne_range: "\<lfloor>r\<rfloor> \<le> rne r" "rne r \<le> \<lfloor>r\<rfloor> + 1"
  by (simp_all add: rne_def Let_def)

lemma rne_mono:
  assumes "r \<le> s"
  shows "rne r \<le> rne s"
proof (cases "\<lfloor>r\<rfloor> = \<lfloor>s\<rfloor>")
  case True
  then show ?thesis
    using assms by (auto simp: rne_def Let_def)
next
  case False
  then have "\<lfloor>r\<rfloor> + 1 \<le> \<lfloor>s\<rfloor>"
    using floor_mono [OF assms] by simp
  then show ?thesis
    using rne_range(2) [of r] rne_range(1) [of s] by linarith
qed

lemma round_pos_bounds:
  assumes "0 < x"
  shows "pow2 (ilog2 x) \<le> round_pos x" and "round_pos x \<le> pow2 (ilog2 x + 1)"
proof -
  define e where "e = ilog2 x"
  define s where "s = x * pow2 (52 - e)"
  have p: "0 < pow2 (52 - e)" "0 < pow2 (e - 52)" by (rule pow2_pos)+
  have "pow2 e * pow2 (52 - e) \<le> s"
    using mult_right_mono [OF ilog2_bounds(1) [OF assms], of "pow2 (52 - e)"] p(1)
    by (simp add: s_def e_def)
  then have lo: "2 ^ 52 \<le> s"
    using pow2_add [of e "52 - e"] pow2_nat [of 52] by simp
  have "s < pow2 (e + 1) * pow2 (52 - e)"
    using mult_strict_right_mono [OF ilog2_bounds(2) [OF assms] p(1)]
    by (simp add: s_def e_def)
  then have hi: "s < 2 ^ 53"
    using pow2_add [of "e + 1" "52 - e"] pow2_nat [of 53] by simp
  have "rne (of_int (2 ^ 52)) \<le> rne s"
    using lo by (intro rne_mono) simp
  then have rlo: "2 ^ 52 \<le> rne s" by (simp only: rne_of_int)
  have "rne s \<le> rne (of_int (2 ^ 53))"
    using hi by (intro rne_mono) simp
  then have rhi: "rne s \<le> 2 ^ 53" by (simp only: rne_of_int)
  have r: "round_pos x = of_int (rne s) * pow2 (e - 52)"
    by (simp add: round_pos_def s_def e_def Let_def)
  have "pow2 e = 2 ^ 52 * pow2 (e - 52)"
    using pow2_add [of 52 "e - 52"] pow2_nat [of 52] by simp
  also have "\<dots> \<le> of_int (rne s) * pow2 (e - 52)"
    using rlo p(2) by (simp add: of_int_le_iff [symmetric] del: of_int_le_iff)
  finally show "pow2 (ilog2 x) \<le> round_pos x"
    by (simp add: r e_def)
  have "of_int (rne s) * pow2 (e - 52) \<le> 2 ^ 53 * pow2 (e - 52)"
    using rhi p(2) by (simp add: of_int_le_iff [symmetric] del: of_int_le_iff)
  also have "\<dots> = pow2 (e + 1)"
    using pow2_add [of 53 "e - 52"] pow2_nat [of 53] by (simp add: add.commute)
  finally show "round_pos x \<le> pow2 (ilog2 x + 1)"
    by (simp add: r e_def)
qed

lemma round_pos_mono:
  assumes "0 < x" "x \<le> y"
  shows "round_pos x \<le> round_pos y"
proof (cases "ilog2 x = ilog2 y")
  case True
  have "rne (x * pow2 (52 - ilog2 y)) \<le> rne (y * pow2 (52 - ilog2 y))"
    using assms(2) pow2_pos [of "52 - ilog2 y"] by (intro rne_mono) simp
  then have "real_of_int (rne (x * pow2 (52 - ilog2 y))) \<le> of_int (rne (y * pow2 (52 - ilog2 y)))"
    by simp
  then show ?thesis
    using pow2_pos [of "ilog2 y - 52"] by (simp add: round_pos_def True Let_def mult_right_mono)
next
  case False
  then have "ilog2 x + 1 \<le> ilog2 y"
    using ilog2_mono [OF assms] by simp
  then have "pow2 (ilog2 x + 1) \<le> pow2 (ilog2 y)"
    by (rule pow2_mono)
  moreover have "0 < y" using assms by simp
  ultimately show ?thesis
    using round_pos_bounds(2) [OF assms(1)] round_pos_bounds(1) [of y] by linarith
qed

lemma round_pos_pos: "0 < x \<Longrightarrow> 0 < round_pos x"
  using round_pos_bounds(1) [of x] pow2_pos [of "ilog2 x"] by linarith

lemma float64_mono:
  assumes "x \<le> y"
  shows "float64 x \<le> float64 y"
proof -
  consider "0 < x" | "x = 0" | "x < 0" "y < 0" | "x < 0" "0 \<le> y"
    by linarith
  then show ?thesis
  proof cases
    case 1
    then show ?thesis
      using assms round_pos_mono [of x y] by (simp add: float64_def)
  next
    case 2
    then show ?thesis
      using assms round_pos_pos [of y] by (auto simp: float64_def)
  next
    case 3
    then show ?thesis
      using assms round_pos_mono [of "- y" "- x"] by (simp add: float64_def)
  next
    case 4
    then show ?thesis
      using round_pos_pos [of "- x"] round_pos_pos [of y] by (auto simp: float64_def)
  qed
qed

lemma float64_nonneg: "0 \<le> x \<Longrightarrow> 0 \<le> float64 x"
  using round_pos_pos [of x] by (auto simp: float64_def)

lemma float64_nonpos: "x \<le> 0 \<Longrightarrow> float64 x \<le> 0"
  using round_pos_pos [of "- x"] by (auto simp: float64_def)

section \<open>Lemmas on the reply of the service\<close>

lemma calculateTotalScore_sum:
  "calculateTotalScore scores = wrap64 (sum_list (presentScores scores))"
  by (simp add: calculateTotalScore_def presentScores_def go_add_def wrap64_add_left wrap64_0
      add.assoc split: option.splits)

lemma recompute_Scores:
  "Scores (recompute analysis) =
     (Scores analysis)\<lparr>TotalScore := calculateTotalScore (Scores analysis)\<rparr>"
  by (simp add: recompute_def Let_def)

lemma presentScores_TotalScore_update [simp]:
  "presentScores (scores\<lparr>TotalScore := t\<rparr>) = presentScores scores"
  by (simp add: presentScores_def)

lemma calculateTotalScore_update [simp]:
  "calculateTotalScore (scores\<lparr>TotalScore := t\<rparr>) = calculateTotalScore scores"
  by (simp add: calculateTotalScore_def)

lemma countRelevantCriteria_update [simp]:
  "countRelevantCriteria (scores\<lparr>TotalScore := t\<rparr>) = countRelevantCriteria scores"
  by (simp add: countRelevantCriteria_def)

lemma recompute_withTotal: "recompute (withTotal t analysis) = recompute analysis"
  by (simp add: recompute_def withTotal_def Let_def)

lemma recompute_total_sum:
  "TotalScore (Scores (recompute analysis)) =
     wrap64 (sum_list (presentScores (Scores (recompute analysis))))"
  by (simp add: recompute_Scores calculateTotalScore_sum)

lemma presentScores_length: "length (presentScores scores) \<le> 7"
  by (simp add: presentScores_def split: option.splits)

lemma sum_list_rubric:
  assumes "\<forall>v\<in>set xs. 1 \<le> v \<and> v \<le> 5"
  shows "0 \<le> sum_list xs \<and> sum_list xs \<le> 5 * int (length xs)"
  using assms by (induction xs) auto

lemma rubric_sum_fits:
  assumes "\<forall>v\<in>set (presentScores scores). 1 \<le> v \<and> v \<le> 5"
  shows "- (2 ^ 63) \<le> sum_list (presentScores scores)" "sum_list (presentScores scores) < 2 ^ 63"
  using sum_list_rubric [OF assms] presentScores_length [of scores] by simp_all

lemma decodeContent_Inr:
  assumes "decodeContent unmarshalAnalysis content = Inr result"
  obtains jsonContent analysis where
    "extractJSON (stripFences content) = Inr jsonContent"
    "unmarshalAnalysis jsonContent = Some analysis"
    "result = recompute analysis"
  using assms by (auto simp: decodeContent_def split: sum.splits option.splits)

lemma callGPTAPI_Inr:
  assumes "callGPTAPI unmarshalResponse unmarshalAnalysis exchange = Inr result"
  obtains body content others where
    "exchange = Response 200 body"
    "unmarshalResponse body = Some (content # others)"
    "decodeContent unmarshalAnalysis content = Inr result"
  using assms
  by (auto simp: callGPTAPI_def split: http_exchange.splits if_splits option.splits list.splits)

lemma callGPTAPI_recompute:
  assumes "callGPTAPI unmarshalResponse unmarshalAnalysis exchange = Inr result"
  obtains analysis where "result = recompute analysis"
  using assms by (elim callGPTAPI_Inr decodeContent_Inr)

lemma decodeContent_withTotal:
  "decodeContent (\<lambda>s. map_option (withTotal t) (unmarshalAnalysis s)) content =
     decodeContent unmarshalAnalysis content"
  by (simp add: decodeContent_def recompute_withTotal split: sum.splits option.splits)

lemma callGPTAPI_withTotal:
  "callGPTAPI unmarshalResponse (\<lambda>s. map_option (withTotal t) (unmarshalAnalysis s)) exchange =
     callGPTAPI unmarshalResponse unmarshalAnalysis exchange"
  by (simp add: callGPTAPI_def decodeContent_withTotal
      split: http_exchange.splits option.splits list.splits)

section \<open>Lemmas on the extraction of the JSON object\<close>

lemma findJsonEnd_balanced:
  "0 < bc \<Longrightarrow> balancedFrom (bc - 1) body \<Longrightarrow>
     findJsonEnd (body @ CHR ''}'' # post) i bc = i + int (length body) + 1"
proof (induction body arbitrary: i bc)
  case Nil
  then show ?case by simp
next
  case (Cons c cs)
  from Cons.prems have step: "0 < bc + braceStep c" "balancedFrom (bc + braceStep c - 1) cs"
    by (simp_all add: algebra_simps)
  from Cons.IH [OF step, of "i + 1"] step(1) Cons.prems(1) show ?case
    by (auto simp: braceStep_def split: if_splits)
qed

lemma findJsonEnd_staysOpen:
  "staysOpen bc s \<Longrightarrow> findJsonEnd s i bc = - 1"
  by (induction s arbitrary: i bc) (auto simp: braceStep_def split: if_splits)

lemma Index_absent: "c \<notin> set s \<Longrightarrow> Index s c = - 1"
  by (induction s) auto

lemma Index_nonneg: "c \<in> set s \<Longrightarrow> 0 \<le> Index s c"
  by (induction s) (auto simp: Let_def)

lemma Index_first: "c \<notin> set pre \<Longrightarrow> Index (pre @ c # rest) c = int (length pre)"
  by (induction pre) (auto simp: Let_def)

lemma extractJSON_object:
  assumes "CHR ''{'' \<notin> set pre" "balancedFrom 0 body"
  shows "extractJSON (pre @ CHR ''{'' # body @ CHR ''}'' # post) = Inr (CHR ''{'' # body @ ''}'')"
proof -
  have "nat (2 + int (length body)) = Suc (Suc (length body))"
    by simp
  then show ?thesis
    using assms findJsonEnd_balanced [of 1 body post "int (length pre) + 1"]
    by (simp add: extractJSON_def Index_first Let_def)
qed

lemma extractJSON_no_brace:
  "CHR ''{'' \<notin> set content \<Longrightarrow> extractJSON content = Inl NoJSONObjectFound"
  by (simp add: extractJSON_def Index_absent)

lemma extractJSON_unmatched:
  assumes "CHR ''{'' \<notin> set pre" "staysOpen 1 tail"
  shows "extractJSON (pre @ CHR ''{'' # tail) = Inl UnmatchedBraces"
  using assms findJsonEnd_staysOpen [of 1 tail "int (length pre) + 1"]
  by (simp add: extractJSON_def Index_first Let_def)

lemma dropWhile_core:
  assumes "core \<noteq> []" "\<not> P (hd core)"
  shows "dropWhile P (pre @ core @ post) = dropWhile P pre @ core @ post"
proof (cases "\<forall>x\<in>set pre. P x")
  case True
  then have "dropWhile P pre = []" by simp
  moreover from assms have "dropWhile P (core @ post) = core @ post"
    by (cases core) simp_all
  ultimately show ?thesis
    using True by (simp add: dropWhile_append2)
next
  case False
  then obtain x where "x \<in> set pre" "\<not> P x" by blast
  then show ?thesis by (simp add: dropWhile_append1)
qed

lemma TrimSpace_core:
  assumes "core \<noteq> []" "\<not> isSpace (hd core)" "\<not> isSpace (last core)"
  shows "TrimSpace (pre @ core @ post) =
           dropWhile isSpace pre @ core @ rev (dropWhile isSpace (rev post))"
proof -
  have a: "dropWhile isSpace (pre @ core @ post) = dropWhile isSpace pre @ core @ post"
    using assms(1,2) by (rule dropWhile_core)
  have b: "dropWhile isSpace (rev post @ rev core @ rev (dropWhile isSpace pre)) =
          dropWhile isSpace (rev post) @ rev core @ rev (dropWhile isSpace pre)"
    using assms by (intro dropWhile_core) (simp_all add: hd_rev)
  have "TrimSpace (pre @ core @ post) =
          rev (dropWhile isSpace (rev post @ rev core @ rev (dropWhile isSpace pre)))"
    by (simp add: TrimSpace_def a)
  also have "\<dots> = dropWhile isSpace pre @ core @ rev (dropWhile isSpace (rev post))"
    by (simp only: b rev_append rev_rev_ident append_assoc)
  finally show ?thesis .
qed

lemma prefix_before_core:
  assumes "core \<noteq> []" "hd core \<notin> set p" "prefix p (pre @ core @ post)"
  shows "prefix p pre"
proof (rule ccontr)
  assume np: "\<not> prefix p pre"
  from assms(3) have "prefix p pre \<or> (\<exists>us. p = pre @ us \<and> prefix us (core @ post))"
    by (simp add: prefix_append)
  with np obtain us where us: "p = pre @ us" "prefix us (core @ post)" by blast
  with np have "us \<noteq> []" by auto
  with us(2) assms(1) have "hd us = hd core"
    by (cases us; cases core) (auto simp: prefix_Cons)
  with \<open>us \<noteq> []\<close> us(1) have "hd core \<in> set p" by (cases us) auto
  with assms(2) show False by contradiction
qed

lemma TrimPrefix_core:
  assumes "core \<noteq> []" "hd core \<notin> set p"
  shows "\<exists>pre'. TrimPrefix (pre @ core @ post) p = pre' @ core @ post \<and> suffix pre' pre"
proof (cases "prefix p (pre @ core @ post)")
  case True
  have "prefix p pre" by (rule prefix_before_core [OF assms True])
  then have len: "length p \<le> length pre" by (rule prefix_length_le)
  have "TrimPrefix (pre @ core @ post) p = drop (length p) (pre @ core @ post)"
    by (simp only: TrimPrefix_def True if_True)
  also have "\<dots> = drop (length p) pre @ core @ post"
    using len by simp
  finally show ?thesis using suffix_drop by blast
next
  case False
  then show ?thesis by (auto simp: TrimPrefix_def)
qed

lemma TrimSuffix_rev: "TrimSuffix s p = rev (TrimPrefix (rev s) (rev p))"
proof (cases "suffix p s")
  case True
  then obtain xs where s: "s = xs @ p" by (auto simp: suffix_def)
  have pre: "prefix (rev p) (rev s)" by (simp add: s)
  have "TrimSuffix s p = take (length s - length p) s"
    by (simp only: TrimSuffix_def True if_True)
  also have "\<dots> = xs" by (simp add: s)
  finally have l: "TrimSuffix s p = xs" .
  have "TrimPrefix (rev s) (rev p) = drop (length (rev p)) (rev s)"
    by (simp only: TrimPrefix_def pre if_True)
  also have "\<dots> = rev xs" by (simp add: s)
  finally show ?thesis by (simp add: l)
next
  case False
  then have "\<not> prefix (rev p) (rev s)" using suffix_to_prefix by blast
  then show ?thesis using False by (simp only: TrimSuffix_def TrimPrefix_def if_False rev_rev_ident)
qed

lemma TrimSuffix_core:
  assumes "core \<noteq> []" "last core \<notin> set p"
  shows "\<exists>post'. TrimSuffix (pre @ core @ post) p = pre @ core @ post' \<and> prefix post' post"
proof -
  from assms have "rev core \<noteq> []" "hd (rev core) \<notin> set (rev p)"
    by (simp_all add: hd_rev)
  from TrimPrefix_core [OF this, of "rev post" "rev pre"]
  obtain q where q: "TrimPrefix (rev post @ rev core @ rev pre) (rev p) = q @ rev core @ rev pre"
    "suffix q (rev post)" by blast
  then have "TrimSuffix (pre @ core @ post) p = pre @ core @ rev q"
    by (simp add: TrimSuffix_rev)
  moreover from q(2) have "prefix (rev q) post"
    by (simp only: suffix_to_prefix rev_rev_ident)
  ultimately show ?thesis by blast
qed

lemma prefix_rev_dropWhile: "prefix (rev (dropWhile P (rev xs))) xs"
proof -
  have "suffix (dropWhile P (rev xs)) (rev xs)" by (rule suffix_dropWhile)
  then show ?thesis by (simp only: suffix_to_prefix rev_rev_ident)
qed

lemma stripFences_core:
  assumes "core \<noteq> []" "hd core \<notin> trimmable" "last core \<notin> trimmable"
  shows "\<exists>pre' post'. stripFences (pre @ core @ post) = pre' @ core @ post'
           \<and> suffix pre' pre \<and> prefix post' post"
proof -
  from assms have sp: "\<not> isSpace (hd core)" "\<not> isSpace (last core)"
    and f1: "hd core \<notin> set ''```json''" and f2: "hd core \<notin> set ''```''"
    and f3: "last core \<notin> set ''```''"
    by (auto simp: trimmable_def)
  define pre1 where "pre1 = dropWhile isSpace pre"
  define post1 where "post1 = rev (dropWhile isSpace (rev post))"
  have s1: "TrimSpace (pre @ core @ post) = pre1 @ core @ post1"
    unfolding pre1_def post1_def using assms(1) sp by (rule TrimSpace_core)
  have r1: "suffix pre1 pre" "prefix post1 post"
    by (simp_all add: pre1_def post1_def suffix_dropWhile prefix_rev_dropWhile)
  obtain pre2 where s2: "TrimPrefix (pre1 @ core @ post1) ''```json'' = pre2 @ core @ post1"
    and r2: "suffix pre2 pre1"
    using TrimPrefix_core [OF assms(1) f1] by blast
  obtain pre3 where s3: "TrimPrefix (pre2 @ core @ post1) ''```'' = pre3 @ core @ post1"
    and r3: "suffix pre3 pre2"
    using TrimPrefix_core [OF assms(1) f2] by blast
  obtain post4 where s4: "TrimSuffix (pre3 @ core @ post1) ''```'' = pre3 @ core @ post4"
    and r4: "prefix post4 post1"
    using TrimSuffix_core [OF assms(1) f3] by blast
  have s5: "TrimSpace (pre3 @ core @ post4) =
      dropWhile isSpace pre3 @ core @ rev (dropWhile isSpace (rev post4))"
    using assms(1) sp by (rule TrimSpace_core)
  have r5: "suffix (dropWhile isSpace pre3) pre3" "prefix (rev (dropWhile isSpace (rev post4))) post4"
    by (simp_all add: suffix_dropWhile prefix_rev_dropWhile)
  have "stripFences (pre @ core @ post) =
      dropWhile isSpace pre3 @ core @ rev (dropWhile isSpace (rev post4))"
    by (simp add: stripFences_def s1 s2 s3 s4 s5)
  moreover have "suffix (dropWhile isSpace pre3) pre"
    using r5(1) r3 r2 r1(1) by (meson suffix_order.trans)
  moreover have "prefix (rev (dropWhile isSpace (rev post4))) post"
    using r5(2) r4 r1(2) by (meson prefix_order.trans)
  ultimately show ?thesis by blast
qed

lemma set_TrimSpace: "set (TrimSpace s) \<subseteq> set s"
  by (auto simp: TrimSpace_def dest!: set_dropWhileD)

lemma set_TrimPrefix: "set (TrimPrefix s p) \<subseteq> set s"
  by (auto simp: TrimPrefix_def dest: in_set_dropD)

lemma set_TrimSuffix: "set (TrimSuffix s p) \<subseteq> set s"
  by (auto simp: TrimSuffix_def dest: in_set_takeD)

lemma set_stripFences: "set (stripFences s) \<subseteq> set s"
  unfolding stripFences_def Let_def
  by (meson set_TrimSpace set_TrimPrefix set_TrimSuffix subset_trans)

lemma bracedObjectE:
  assumes "bracedObject obj"
  obtains body where "obj = CHR ''{'' # body @ ''}''" "balancedFrom 0 body"
proof -
  from assms obtain cs where cs: "obj = CHR ''{'' # cs" "cs \<noteq> []" "last cs = CHR ''}''"
    "balancedFrom 0 (butlast cs)"
    by (auto simp: bracedObject_def split: list.splits)
  from cs(2,3) have "cs = butlast cs @ ''}''"
    by (metis append_butlast_last_id)
  with cs(1,4) that show ?thesis by metis
qed

lemma staysOpen_prefix: "staysOpen d (xs @ ys) \<Longrightarrow> staysOpen d xs"
  by (induction xs arbitrary: d) auto

lemma brace_not_trimmable: "CHR ''{'' \<notin> trimmable" "CHR ''}'' \<notin> trimmable"
  by (simp_all add: trimmable_def isSpace_def)

lemma stripFences_object:
  assumes "CHR ''{'' \<notin> set pre" "balancedFrom 0 body"
  shows "extractJSON (stripFences (pre @ CHR ''{'' # body @ CHR ''}'' # post)) =
           Inr (CHR ''{'' # body @ ''}'')"
proof -
  let ?core = "CHR ''{'' # body @ ''}''"
  have "?core \<noteq> []" "hd ?core \<notin> trimmable" "last ?core \<notin> trimmable"
    by (simp_all add: brace_not_trimmable)
  from stripFences_core [OF this, of pre post]
  obtain pre' post' where s: "stripFences (pre @ ?core @ post) = pre' @ ?core @ post'"
    and p: "suffix pre' pre" by blast
  from p assms(1) have "CHR ''{'' \<notin> set pre'"
    using set_mono_suffix by blast
  then have "extractJSON (pre' @ CHR ''{'' # body @ CHR ''}'' # post') = Inr ?core"
    using assms(2) by (rule extractJSON_object)
  with s show ?thesis by simp
qed

lemma stripFences_unmatched:
  assumes "CHR ''{'' \<notin> set pre" "staysOpen 1 tail"
  shows "extractJSON (stripFences (pre @ CHR ''{'' # tail)) = Inl UnmatchedBraces"
proof -
  have "''{'' \<noteq> []" "hd ''{'' \<notin> trimmable" "last ''{'' \<notin> trimmable"
    by (simp_all add: brace_not_trimmable)
  from stripFences_core [OF this, of pre tail]
  obtain pre' tail' where s: "stripFences (pre @ ''{'' @ tail) = pre' @ ''{'' @ tail'"
    and p: "suffix pre' pre" "prefix tail' tail" by blast
  from p(1) assms(1) have "CHR ''{'' \<notin> set pre'"
    using set_mono_suffix by blast
  moreover from p(2) assms(2) have "staysOpen 1 tail'"
    by (auto simp: prefix_def dest: staysOpen_prefix)
  ultimately have "extractJSON (pre' @ CHR ''{'' # tail') = Inl UnmatchedBraces"
    by (rule extractJSON_unmatched)
  with s show ?thesis by simp
qed

lemma stripFences_no_brace:
  assumes "CHR ''{'' \<notin> set content"
  shows "extractJSON (stripFences content) = Inl NoJSONObjectFound"
  using assms set_stripFences [of content] by (intro extractJSON_no_brace) blast

lemma callGPTAPI_content:
  "unmarshalResponse body = Some (content # others) \<Longrightarrow>
     callGPTAPI unmarshalResponse unmarshalAnalysis (Response 200 body) =
       decodeContent unmarshalAnalysis content"
  by (simp add: callGPTAPI_def)

section \<open>Lemmas on the classification\<close>

lemmas float_eval = float64_def round_pos_def ilog2_def rne_def pow2_def compute_bitlen Let_def

lemma percentage_mono:
  assumes "0 < float64 (of_int m)" "t \<le> t'"
  shows "percentage t m \<le> percentage t' m"
proof -
  have "float64 (of_int t) \<le> float64 (of_int t')"
    using assms(2) by (intro float64_mono) simp
  then have "float64 (of_int t) / float64 (of_int m) \<le> float64 (of_int t') / float64 (of_int m)"
    using assms(1) by (simp add: divide_right_mono)
  then have "float64 (float64 (of_int t) / float64 (of_int m)) * 100
      \<le> float64 (float64 (of_int t') / float64 (of_int m)) * 100"
    by (simp add: float64_mono)
  then show ?thesis
    unfolding percentage_def by (rule float64_mono)
qed

lemma percentage_cut:
  assumes "0 < float64 (of_int m)" "c \<le> percentage t0 m" "percentage (t0 - 1) m < c"
  shows "c \<le> percentage t m \<longleftrightarrow> t0 \<le> t"
proof
  assume "c \<le> percentage t m"
  show "t0 \<le> t"
  proof (rule ccontr)
    assume "\<not> t0 \<le> t"
    then have "t \<le> t0 - 1" by simp
    from percentage_mono [OF assms(1) this] assms(3) \<open>c \<le> percentage t m\<close>
    show False by simp
  qed
next
  assume "t0 \<le> t"
  from percentage_mono [OF assms(1) this] assms(2) show "c \<le> percentage t m" by simp
qed

lemma percentage_5:
  "85 \<le> percentage t 5 \<longleftrightarrow> 5 \<le> t" "70 \<le> percentage t 5 \<longleftrightarrow> 4 \<le> t"
  "50 \<le> percentage t 5 \<longleftrightarrow> 3 \<le> t"
  by (rule percentage_cut; simp add: percentage_def float_eval)+

lemma percentage_10:
  "85 \<le> percentage t 10 \<longleftrightarrow> 9 \<le> t" "70 \<le> percentage t 10 \<longleftrightarrow> 7 \<le> t"
  "50 \<le> percentage t 10 \<longleftrightarrow> 5 \<le> t"
  by (rule percentage_cut; simp add: percentage_def float_eval)+

lemma percentage_30:
  "85 \<le> percentage t 30 \<longleftrightarrow> 26 \<le> t" "70 \<le> percentage t 30 \<longleftrightarrow> 21 \<le> t"
  "50 \<le> percentage t 30 \<longleftrightarrow> 15 \<le> t"
  by (rule percentage_cut; simp add: percentage_def float_eval)+

lemma percentage_35:
  "85 \<le> percentage t 35 \<longleftrightarrow> 30 \<le> t" "70 \<le> percentage t 35 \<longleftrightarrow> 25 \<le> t"
  "50 \<le> percentage t 35 \<longleftrightarrow> 18 \<le> t"
  by (rule percentage_cut; simp add: percentage_def float_eval)+

lemma countRelevantCriteria_range:
  "0 \<le> countRelevantCriteria scores" "countRelevantCriteria scores \<le> 7"
  by (simp_all add: countRelevantCriteria_def split: option.splits)

lemma classification_table:
  assumes "0 \<le> n" "n \<le> 7"
  shows "getClassificationFromScore t n = tier t n"
proof -
  from assms consider "n = 0" | "n = 1" | "n = 2" | "n = 3" | "n = 4" | "n = 5" | "n = 6" | "n = 7"
    by linarith
  then show ?thesis
  proof cases
    case 2
    then show ?thesis
      by (simp add: getClassificationFromScore_def go_mul_def wrap64_def tier_def claimedTier_def
          tierByShare_def
          percentage_5)
  next
    case 3
    then show ?thesis
      by (simp add: getClassificationFromScore_def go_mul_def wrap64_def tier_def claimedTier_def
          tierByShare_def
          percentage_10)
  next
    case 7
    then show ?thesis
      by (simp add: getClassificationFromScore_def go_mul_def wrap64_def tier_def claimedTier_def
          tierByShare_def
          percentage_30)
  next
    case 8
    then show ?thesis
      by (simp add: getClassificationFromScore_def go_mul_def wrap64_def tier_def claimedTier_def
          tierByShare_def
          percentage_35)
  qed (simp_all add: getClassificationFromScore_def tier_def claimedTier_def tierByCuts_def)
qed

lemma recompute_Classification:
  "Classification (recompute analysis) =
     getClassificationFromScore (calculateTotalScore (Scores analysis))
       (countRelevantCriteria (Scores analysis))"
  by (simp add: recompute_def Let_def)

lemma recompute_tier:
  "Classification (recompute analysis) =
     tier (TotalScore (Scores (recompute analysis)))
       (countRelevantCriteria (Scores (recompute analysis)))"
  by (simp add: recompute_Classification recompute_Scores classification_table
      countRelevantCriteria_range)

lemma recompute_withClassification:
  "recompute (withClassification c analysis) = recompute analysis"
  by (simp add: recompute_def withClassification_def Let_def)

lemma decodeContent_withClassification:
  "decodeContent (\<lambda>s. map_option (withClassification c) (unmarshalAnalysis s)) content =
     decodeContent unmarshalAnalysis content"
  by (simp add: decodeContent_def recompute_withClassification split: sum.splits option.splits)

lemma callGPTAPI_withClassification:
  "callGPTAPI unmarshalResponse (\<lambda>s. map_option (withClassification c) (unmarshalAnalysis s))
      exchange =
     callGPTAPI unmarshalResponse unmarshalAnalysis exchange"
  by (simp add: callGPTAPI_def decodeContent_withClassification
      split: http_exchange.splits option.splits list.splits)

section \<open>Lemmas on the percentage of a score\<close>

lemma ScoreToPercentage_zero: "ScoreToPercentage score 0 = 0"
  by (simp add: ScoreToPercentage_def)

lemma float64_0: "float64 0 = 0"
  by (simp add: float64_def)

text \<open>For a count from 1 to 7 no operation of \<open>ScoreToPercentage\<close> wraps around.\<close>

lemma ScoreToPercentage_count:
  assumes "1 \<le> n" "n \<le> 7"
  shows "ScoreToPercentage score n =
     float64 (float64 (of_int (max n (min score (n * 5)) - n))
              * float64 (100 / float64 (of_int (n * 4))))"
proof -
  have m5: "go_mul n 5 = n * 5"
    using assms by (intro go_mul_small) simp_all
  have m1: "go_mul n 1 = n"
    using go_mul_small [of n 1] assms by simp
  have sub: "go_sub k n = k - n" if "n \<le> k" "k \<le> n * 5" for k
    unfolding go_sub_def using that assms by (intro wrap64_id) simp_all
  have r: "go_sub (n * 5) n = n * 4"
    using sub [of "n * 5"] assms by simp
  define k where "k = max n (min score (n * 5))"
  have k: "n \<le> k" "k \<le> n * 5"
    using assms by (simp_all add: k_def)
  have clamped: "(let score = (if score < n then n else score) in
      if score > n * 5 then n * 5 else score) = k"
    using assms by (simp add: k_def Let_def max_def min_def)
  have "ScoreToPercentage score n =
      float64 (float64 (of_int (go_sub k n)) * float64 (100 / float64 (of_int (n * 4))))"
    using assms clamped by (simp add: ScoreToPercentage_def m5 m1 r Let_def)
  with sub [OF k] show ?thesis
    unfolding k_def by simp
qed

lemma ScoreToPercentage_min:
  assumes "1 \<le> n" "n \<le> 7"
  shows "ScoreToPercentage (n * 1) n = 0"
  using assms by (simp add: ScoreToPercentage_count float64_0)

lemma ScoreToPercentage_max:
  assumes "1 \<le> n" "n \<le> 7"
  shows "ScoreToPercentage (n * 5) n = 100"
proof -
  from assms have "n \<in> {1, 2, 3, 4, 5, 6, 7}"
    by (simp add: insert_iff) arith
  then show ?thesis
    by (elim insertE emptyE) (simp_all add: ScoreToPercentage_count float_eval)
qed

lemma ScoreToPercentage_clamp:
  assumes "1 \<le> n" "n \<le> 7"
  shows "ScoreToPercentage score n = ScoreToPercentage (max (n * 1) (min score (n * 5))) n"
  using assms by (simp add: ScoreToPercentage_count max_def min_def)

lemma ScoreToPercentage_mono:
  assumes "1 \<le> n" "n \<le> 7" "s \<le> s'"
  shows "ScoreToPercentage s n \<le> ScoreToPercentage s' n"
proof -
  define c where "c = float64 (100 / float64 (of_int (n * 4)))"
  have "0 \<le> float64 (of_int (n * 4))"
    using assms(1) by (intro float64_nonneg) simp
  then have c: "0 \<le> c"
    unfolding c_def by (intro float64_nonneg) simp
  have "max n (min s (n * 5)) - n \<le> max n (min s' (n * 5)) - n"
    using assms(3) by simp
  then have "float64 (of_int (max n (min s (n * 5)) - n))
      \<le> float64 (of_int (max n (min s' (n * 5)) - n))"
    by (intro float64_mono) simp
  then have "float64 (of_int (max n (min s (n * 5)) - n)) * c
      \<le> float64 (of_int (max n (min s' (n * 5)) - n)) * c"
    using c by (rule mult_right_mono)
  then show ?thesis
    unfolding ScoreToPercentage_count [OF assms(1,2)] c_def by (rule float64_mono)
qed

text \<open>The rounding agrees with the float64 of Go where the values are known: an
  integer up to \<open>2 ^ 53\<close> converts exactly, a tie goes to the even significand, and
  the constants \<open>0.1\<close> and \<open>0.85\<close> get their usual doubles.\<close>

lemma rne_of_int_mult:
  "rne (real_of_int k * 2 ^ m) = k * 2 ^ m"
  using rne_of_int [of "k * 2 ^ m"] by simp

lemma round_pos_of_int:
  assumes "0 < k" "k \<le> 2 ^ 53"
  shows "round_pos (of_int k) = of_int k"
proof -
  define e where "e = ilog2 (of_int k)"
  have "pow2 e \<le> of_int k"
    unfolding e_def using assms(1) by (intro ilog2_bounds) simp
  also have "real_of_int k \<le> pow2 53"
    using assms(2) pow2_nat [of 53] of_int_le_iff [of k "2 ^ 53", where ?'a = real] by simp
  finally have "e \<le> 53"
    using pow2_mono [of 54 e] pow2_nat [of 53] pow2_nat [of 54]
    by (cases "e \<le> 53") auto
  show ?thesis
  proof (cases "e \<le> 52")
    case True
    then have p: "pow2 (52 - e) = 2 ^ nat (52 - e)"
      by (simp add: pow2_def)
    have "pow2 (52 - e) * pow2 (e - 52) = 1"
      using pow2_add [of "52 - e" "e - 52"] by (simp add: pow2_def)
    then show ?thesis
      by (simp add: round_pos_def Let_def e_def [symmetric] p rne_of_int_mult algebra_simps)
  next
    case False
    with \<open>e \<le> 53\<close> have e53: "e = 53" by simp
    then have "2 ^ 53 \<le> real_of_int k"
      using \<open>pow2 e \<le> of_int k\<close> pow2_nat [of 53] by simp
    then have "2 ^ 53 \<le> k"
      using of_int_le_iff [of "2 ^ 53" k, where ?'a = real] by simp
    with assms(2) have k: "k = 2 ^ 53" by simp
    show ?thesis
      unfolding k by (simp add: round_pos_def ilog2_def rne_def pow2_def compute_bitlen Let_def)
  qed
qed

lemma float64_of_int:
  assumes "\<bar>k\<bar> \<le> 2 ^ 53"
  shows "float64 (of_int k) = of_int k"
proof -
  consider "k = 0" | "0 < k" | "k < 0" by linarith
  then show ?thesis
  proof cases
    case 1
    then show ?thesis by (simp add: float64_def)
  next
    case 2
    then show ?thesis using assms round_pos_of_int [of k] by (simp add: float64_def)
  next
    case 3
    then show ?thesis using assms round_pos_of_int [of "- k"] by (simp add: float64_def)
  qed
qed

lemma float64_examples:
  "float64 (1 / 10) = 3602879701896397 / 2 ^ 55"
  "float64 (2 ^ 53 + 1) = 2 ^ 53"
  "float64 (2 ^ 53 + 3) = 2 ^ 53 + 4"
  "float64 (85 / 100) = 7656119366529843 / 2 ^ 53"
  "float64 (100 / 44) = 5117726849284655 / 2 ^ 51"
  by (simp_all add: float_eval)

section \<open>Lemmas on the session summary\<close>

text \<open>The average and the grade of a summary, from the sums of the loop.\<close>

lemma GenerateSessionSummary_grade:
  assumes "analyses \<noteq> []" "sumScores analyses (0, 0) = (totalScore, totalCriteriaCount)"
  shows "map_sum id (\<lambda>summary. (AverageScore summary, OverallGrade summary))
      (GenerateSessionSummary analyses now) =
    (let avgScore = float64 (float64 (of_int totalScore)
                             / float64 (of_int (int (length analyses))));
         avgCriteriaCount = go_quot totalCriteriaCount (int (length analyses));
         avgCriteriaCount = (if avgCriteriaCount = 0 then 1 else avgCriteriaCount)
     in Inr (avgScore, getGradeFromScore (go_int avgScore) avgCriteriaCount))"
  using assms by (simp add: GenerateSessionSummary_def Let_def)

section \<open>Lemmas on loading the bank\<close>

lemma find_None_iff': "find P xs = None \<longleftrightarrow> (\<forall>x\<in>set xs. \<not> P x)"
  by (induction xs) auto

lemma find_SomeD': "find P xs = Some x \<Longrightarrow> x \<in> set xs \<and> P x"
  by (induction xs) (auto split: if_splits)

lemma LoadQuestions_success:
  assumes "set rangeOrder = set requiredCategories"
  shows "fst (LoadQuestions readFile unmarshal rangeOrder path Q) = None \<longleftrightarrow>
    (\<exists>data categories. readFile path = Some data \<and> unmarshal data = Some categories \<and>
       (\<forall>category\<in>set requiredCategories. categories category \<noteq> None))"
  using assms
  by (auto simp: LoadQuestions_def Let_def find_None_iff' split: option.splits
      dest!: find_SomeD')

lemma LoadQuestions_bank:
  "fst (LoadQuestions readFile unmarshal rangeOrder path Q) = None \<Longrightarrow>
     \<exists>data. readFile path = Some data \<and>
       unmarshal data = Some (snd (LoadQuestions readFile unmarshal rangeOrder path Q))"
  by (auto simp: LoadQuestions_def Let_def split: option.splits)

lemma LoadQuestions_unread:
  "readFile path = None \<or> (\<exists>data. readFile path = Some data \<and> unmarshal data = None) \<Longrightarrow>
     fst (LoadQuestions readFile unmarshal rangeOrder path Q) \<noteq> None \<and>
     snd (LoadQuestions readFile unmarshal rangeOrder path Q) = Q"
  by (auto simp: LoadQuestions_def Let_def split: option.splits)

lemma LoadQuestions_decoded:
  "readFile path = Some data \<Longrightarrow> unmarshal data = Some categories \<Longrightarrow>
     snd (LoadQuestions readFile unmarshal rangeOrder path Q) = categories"
  by (simp add: LoadQuestions_def Let_def split: option.splits)

section \<open>Lemmas on the selection\<close>

lemma swapAt_length [simp]: "length (swapAt xs p) = length xs"
  by (cases p) (simp add: swapAt_def)

lemma swapAt_mset:
  "fst p < length xs \<Longrightarrow> snd p < length xs \<Longrightarrow> mset (swapAt xs p) = mset xs"
  by (cases p) (simp add: swapAt_def mset_swap)

lemma foldl_swapAt_mset:
  "\<forall>p\<in>set pairs. fst p < length xs \<and> snd p < length xs \<Longrightarrow>
     mset (foldl swapAt xs pairs) = mset xs"
proof (induction pairs arbitrary: xs)
  case Nil
  then show ?case by simp
next
  case (Cons p pairs)
  then have "mset (foldl swapAt (swapAt xs p) pairs) = mset (swapAt xs p)"
    by (intro Cons.IH) simp
  with Cons.prems show ?case by (simp add: swapAt_mset)
qed

lemma shuffled_mset:
  assumes "rand_ok R"
  shows "mset (fst (shuffled R g xs)) = mset xs"
proof -
  obtain pairs g' where s: "Shuffle R g (length xs) = (pairs, g')"
    by (cases "Shuffle R g (length xs)")
  from assms have "\<forall>(i, j)\<in>set (fst (Shuffle R g (length xs))). i < length xs \<and> j < length xs"
    unfolding rand_ok_def by blast
  with s have "\<forall>p\<in>set pairs. fst p < length xs \<and> snd p < length xs"
    by auto
  then show ?thesis
    by (simp add: shuffled_def s foldl_swapAt_mset)
qed

lemma shuffled_set: "rand_ok R \<Longrightarrow> set (fst (shuffled R g xs)) = set xs"
  by (metis shuffled_mset set_mset_mset)

lemma shuffled_length: "rand_ok R \<Longrightarrow> length (fst (shuffled R g xs)) = length xs"
  by (metis shuffled_mset size_mset)

lemma shuffled_distinct: "rand_ok R \<Longrightarrow> distinct (fst (shuffled R g xs)) = distinct xs"
  by (metis shuffled_mset mset_eq_imp_distinct_iff)

lemma shuffled_first:
  assumes "rand_ok R" "xs \<noteq> []"
  shows "fst (shuffled R g xs) ! 0 \<in> set xs"
proof -
  have "0 < length (fst (shuffled R g xs))"
    using assms by (simp add: shuffled_length)
  then have "fst (shuffled R g xs) ! 0 \<in> set (fst (shuffled R g xs))"
    by (rule nth_mem)
  then show ?thesis
    using assms(1) by (simp add: shuffled_set)
qed

lemma newQuestion_fields [simp]:
  "Text (newQuestion sel category t) = t" "Category (newQuestion sel category t) = category"
  by (simp_all add: newQuestion_def)

lemma separate_Cons:
  assumes "separate Q (c # cats)"
  shows "separate Q cats"
  using assms by (simp add: separate_def)

lemma hardTake_result:
  "\<exists>new. hardTake c ts (sel, T) = (sel @ new, T \<union> set ts) \<and> map Text new = ts \<and>
     (\<forall>q\<in>set new. Category q = c)"
proof (induction ts arbitrary: sel T)
  case Nil
  then show ?case by simp
next
  case (Cons t ts)
  from Cons.IH [of "sel @ [newQuestion sel c t]" "insert t T"]
  obtain new where new: "hardTake c ts (sel @ [newQuestion sel c t], insert t T) =
      ((sel @ [newQuestion sel c t]) @ new, insert t T \<union> set ts)"
    "map Text new = ts" "\<forall>q\<in>set new. Category q = c"
    by blast
  show ?case
    by (rule exI [of _ "newQuestion sel c t # new"]) (simp add: new)
qed

lemma hardCategory_result:
  assumes "rand_ok R"
  shows "\<exists>new g'. hardCategory R Q c (sel, T, g) = (sel @ new, T \<union> set (map Text new), g') \<and>
     length new = min 2 (length (filter (\<lambda>q. q \<notin> T) (questionsOf Q c))) \<and>
     (\<forall>q\<in>set new. Category q = c) \<and>
     set (map Text new) \<subseteq> set (questionsOf Q c) - T \<and>
     (distinct (questionsOf Q c) \<longrightarrow> distinct (map Text new))"
proof -
  define available where "available = filter (\<lambda>q. q \<notin> T) (questionsOf Q c)"
  show ?thesis
  proof (cases "available = []")
    case True
    then have "hardCategory R Q c (sel, T, g) = (sel, T, g)"
      by (auto simp: hardCategory_def available_def questionsOf_def Let_def split: option.splits)
    then show ?thesis
      using True by (intro exI [of _ "[]"] exI [of _ g]) (simp add: available_def [symmetric])
  next
    case False
    then obtain questions where q0: "Q c = Some questions"
      "available = filter (\<lambda>q. q \<notin> T) questions"
      by (cases "Q c") (auto simp: available_def questionsOf_def)
    with False have "questions \<noteq> []" by auto
    note q = q0(1) this q0(2)
    obtain available' g' where sh: "shuffled R g available = (available', g')"
      by (cases "shuffled R g available")
    have av: "set available' = set available" "length available' = length available"
      "distinct available' = distinct available"
      using shuffled_set [OF assms, of g available] shuffled_length [OF assms, of g available]
        shuffled_distinct [OF assms, of g available]
      by (simp_all add: sh)
    define count where "count = (if length available' < 2 then length available' else 2)"
    from hardTake_result [of c "take count available'" sel T]
    obtain new where new: "hardTake c (take count available') (sel, T) =
        (sel @ new, T \<union> set (take count available'))"
      "map Text new = take count available'" "\<forall>q\<in>set new. Category q = c"
      by blast
    have h: "hardCategory R Q c (sel, T, g) = (sel @ new, T \<union> set (map Text new), g')"
      using False q(2)
      by (simp add: hardCategory_def q(1) q(3) [symmetric] sh Let_def count_def [symmetric] new)
    have "length new = length (take count available')"
      using new(2) by (metis length_map)
    then have l: "length new = min 2 (length available)"
      by (simp add: count_def av(2))
    have "set (map Text new) \<subseteq> set available"
      using set_take_subset [of count available'] by (simp add: new(2) av(1))
    then have s: "set (map Text new) \<subseteq> set (questionsOf Q c) - T"
      by (auto simp: available_def)
    have d: "distinct (questionsOf Q c) \<longrightarrow> distinct (map Text new)"
      by (simp add: new(2) av(3) available_def)
    from h l new(3) s d show ?thesis
      unfolding available_def by blast
  qed
qed

lemma length_filter_fresh:
  assumes "T \<subseteq> U"
  shows "length (filter (\<lambda>q. q \<notin> U) qs) \<le> length (filter (\<lambda>q. q \<notin> T) qs)"
proof -
  have "filter (\<lambda>q. q \<notin> U) qs = filter (\<lambda>q. q \<notin> U) (filter (\<lambda>q. q \<notin> T) qs)"
    using assms by (auto intro: filter_cong)
  then show ?thesis
    by (metis length_filter_le)
qed

lemma hardLoop_full:
  assumes "rand_ok R"
  shows "enoughFresh Q U cats \<Longrightarrow> T \<subseteq> U \<Longrightarrow>
     (case hardLoop R Q cats (sel, T, g) of (sel', T', g') \<Rightarrow>
        length sel' = length sel + 2 * length cats \<and>
        (\<forall>c. length (filter (\<lambda>q. Category q = c) sel') =
           length (filter (\<lambda>q. Category q = c) sel) + 2 * count_list cats c))"
proof (induction cats arbitrary: sel T U g)
  case Nil
  then show ?case by simp
next
  case (Cons c cats)
  from hardCategory_result [OF assms, of Q c sel T g]
  obtain new g' where new: "hardCategory R Q c (sel, T, g) = (sel @ new, T \<union> set (map Text new), g')"
    "length new = min 2 (length (filter (\<lambda>q. q \<notin> T) (questionsOf Q c)))"
    "\<forall>q\<in>set new. Category q = c"
    "set (map Text new) \<subseteq> set (questionsOf Q c) - T"
    by blast
  from Cons.prems(1) have e: "2 \<le> length (filter (\<lambda>q. q \<notin> U) (questionsOf Q c))"
    "enoughFresh Q (U \<union> set (questionsOf Q c)) cats"
    by simp_all
  from e(1) length_filter_fresh [OF Cons.prems(2), of "questionsOf Q c"] new(2)
  have l: "length new = 2" by simp
  have sub: "T \<union> set (map Text new) \<subseteq> U \<union> set (questionsOf Q c)"
    using Cons.prems(2) new(4) by auto
  have f: "length (filter (\<lambda>q. Category q = c') new) = (if c' = c then 2 else 0)" for c'
    using new(3) l by (auto simp: filter_empty_conv)
  from Cons.IH [OF e(2) sub, of "sel @ new" g'] show ?case
    by (auto simp: new(1) l f)
qed

lemma hardLoop_bound:
  assumes "rand_ok R"
  shows "(case hardLoop R Q cats (sel, T, g) of (sel', T', g') \<Rightarrow>
        length sel' \<le> length sel + 2 * length cats \<and>
        (\<forall>c. length (filter (\<lambda>q. Category q = c) sel') \<le>
           length (filter (\<lambda>q. Category q = c) sel) + 2 * count_list cats c))"
proof (induction cats arbitrary: sel T g)
  case Nil
  then show ?case by simp
next
  case (Cons c cats)
  from hardCategory_result [OF assms, of Q c sel T g]
  obtain new g' where new: "hardCategory R Q c (sel, T, g) = (sel @ new, T \<union> set (map Text new), g')"
    "length new = min 2 (length (filter (\<lambda>q. q \<notin> T) (questionsOf Q c)))"
    "\<forall>q\<in>set new. Category q = c"
    by blast
  have l: "length new \<le> 2" using new(2) by simp
  have f: "length (filter (\<lambda>q. Category q = c') new) \<le> (if c' = c then 2 else 0)" for c'
    using new(3) l by (auto simp: filter_empty_conv intro: order_trans [OF length_filter_le])
  obtain sel' T' g'' where r: "hardLoop R Q cats (sel @ new, T \<union> set (map Text new), g') = (sel', T', g'')"
    by (cases "hardLoop R Q cats (sel @ new, T \<union> set (map Text new), g')")
  from Cons.IH [of "sel @ new" "T \<union> set (map Text new)" g'] r
  have ih: "length sel' \<le> length (sel @ new) + 2 * length cats"
    "\<And>c'. length (filter (\<lambda>q. Category q = c') sel') \<le>
       length (filter (\<lambda>q. Category q = c') (sel @ new)) + 2 * count_list cats c'"
    by simp_all
  have run: "hardLoop R Q (c # cats) (sel, T, g) = (sel', T', g'')"
    using r by (simp add: new(1))
  have a: "length sel' \<le> length sel + 2 * length (c # cats)"
    using ih(1) l by simp
  have b: "length (filter (\<lambda>q. Category q = c') sel') \<le>
       length (filter (\<lambda>q. Category q = c') sel) + 2 * count_list (c # cats) c'" for c'
    using ih(2) [of c'] f [of c'] by (simp split: if_splits)
  show ?case
    unfolding run prod.case using a b by blast
qed

lemma enoughFresh_separate:
  "distinct cats \<Longrightarrow> separate Q cats \<Longrightarrow> \<forall>c\<in>set cats. 2 \<le> length (questionsOf Q c) \<Longrightarrow>
     U \<inter> (\<Union>c\<in>set cats. set (questionsOf Q c)) = {} \<Longrightarrow> enoughFresh Q U cats"
proof (induction cats arbitrary: U)
  case Nil
  then show ?case by simp
next
  case (Cons c cats)
  have "filter (\<lambda>q. q \<notin> U) (questionsOf Q c) = questionsOf Q c"
    using Cons.prems(4) by (auto simp: filter_id_conv)
  then have two: "2 \<le> length (filter (\<lambda>q. q \<notin> U) (questionsOf Q c))"
    using Cons.prems(3) by simp
  have "set (questionsOf Q c) \<inter> set (questionsOf Q c') = {}" if "c' \<in> set cats" for c'
    using that Cons.prems(1,2) by (auto simp: separate_def)
  then have "(U \<union> set (questionsOf Q c)) \<inter> (\<Union>c\<in>set cats. set (questionsOf Q c)) = {}"
    using Cons.prems(4) by auto
  with Cons.prems have "enoughFresh Q (U \<union> set (questionsOf Q c)) cats"
    by (intro Cons.IH) (simp_all add: separate_Cons [of Q c cats])
  with two show ?case by simp
qed

lemma distinct_categories: "distinct allCategories" "distinct easyCategories"
  by (simp_all add: allCategories_def easyCategories_def)

lemma count_allCategories: "count_list allCategories c = (if c \<in> set allCategories then 1 else 0)"
  by (auto simp: allCategories_def)

lemma rand_ok_lastFirstRand: "rand_ok lastFirstRand"
  by (auto simp: rand_ok_def lastFirstRand_def)

lemmas select_eval = SelectQuestionsForSession_def easyCategories_def allCategories_def
  hardCategory_def mediumExtra_def shuffled_def swapAt_def lastFirstRand_def newQuestion_def Let_def

section \<open>Theorems of the specification\<close>

text \<open>
  Claim C1, amended. Whenever \<open>callGPTAPI\<close> returns an analysis, its stored \<^verbatim>\<open>total_score\<close> is
  the sum of the criterion scores that are not null as the 64-bit arithmetic of \<^verbatim>\<open>int\<close>
  gives it: the sum reduced modulo \<open>2^64\<close> into the range from \<open>-2^63\<close> to \<open>2^63 - 1\<close>. It
  is the sum itself whenever the sum lies in that range, in particular whenever every
  score that is present lies between 1 and 5. The value of \<^verbatim>\<open>total_score\<close> in the decoded
  reply has no influence on what \<open>callGPTAPI\<close> returns: replacing it by any \<open>t\<close> gives the
  same outcome.
\<close>

theorem total_score_is_sum_of_present_scores:
  "(callGPTAPI unmarshalResponse unmarshalAnalysis exchange = Inr result \<longrightarrow>
      TotalScore (Scores result) = wrap64 (sum_list (presentScores (Scores result))) \<and>
      (- (2 ^ 63) \<le> sum_list (presentScores (Scores result)) \<and>
       sum_list (presentScores (Scores result)) < 2 ^ 63 \<longrightarrow>
         TotalScore (Scores result) = sum_list (presentScores (Scores result))) \<and>
      ((\<forall>v\<in>set (presentScores (Scores result)). 1 \<le> v \<and> v \<le> 5) \<longrightarrow>
         TotalScore (Scores result) = sum_list (presentScores (Scores result)))) \<and>
   callGPTAPI unmarshalResponse (\<lambda>s. map_option (withTotal t) (unmarshalAnalysis s)) exchange =
     callGPTAPI unmarshalResponse unmarshalAnalysis exchange"
proof (intro conjI impI)
  assume "callGPTAPI unmarshalResponse unmarshalAnalysis exchange = Inr result"
  then obtain analysis where "result = recompute analysis"
    by (rule callGPTAPI_recompute)
  then show w: "TotalScore (Scores result) = wrap64 (sum_list (presentScores (Scores result)))"
    by (simp only: recompute_total_sum)
  {
    assume "- (2 ^ 63) \<le> sum_list (presentScores (Scores result)) \<and>
       sum_list (presentScores (Scores result)) < 2 ^ 63"
    then show "TotalScore (Scores result) = sum_list (presentScores (Scores result))"
      by (simp add: w wrap64_id)
  }
  {
    assume "\<forall>v\<in>set (presentScores (Scores result)). 1 \<le> v \<and> v \<le> 5"
    then show "TotalScore (Scores result) = sum_list (presentScores (Scores result))"
      unfolding w by (intro wrap64_id rubric_sum_fits)
  }
next
  show "callGPTAPI unmarshalResponse (\<lambda>s. map_option (withTotal t) (unmarshalAnalysis s)) exchange =
     callGPTAPI unmarshalResponse unmarshalAnalysis exchange"
    by (rule callGPTAPI_withTotal)
qed

theorem total_score_is_sum_of_present_scores_witness:
  "callGPTAPI (\<lambda>body. Some [body]) (\<lambda>s. Some financialAnalysis) (Response 200 ''{}'') =
     Inr (financialAnalysis\<lparr>Scores := (Scores financialAnalysis)\<lparr>TotalScore := 14\<rparr>,
            Classification := ''Excellent''\<rparr>) \<and>
   list_all (\<lambda>v. 1 \<le> v \<and> v \<le> 5) (presentScores (Scores (financialAnalysis
        \<lparr>Scores := (Scores financialAnalysis)\<lparr>TotalScore := 14\<rparr>,
            Classification := ''Excellent''\<rparr>))) \<and>
   TotalScore (Scores (financialAnalysis\<lparr>Scores := (Scores financialAnalysis)\<lparr>TotalScore := 14\<rparr>,
            Classification := ''Excellent''\<rparr>)) =
     sum_list (presentScores (Scores (financialAnalysis
        \<lparr>Scores := (Scores financialAnalysis)\<lparr>TotalScore := 14\<rparr>,
            Classification := ''Excellent''\<rparr>)))"
proof -
  let ?result = "financialAnalysis\<lparr>Scores := (Scores financialAnalysis)\<lparr>TotalScore := 14\<rparr>,
            Classification := ''Excellent''\<rparr>"
  have run: "callGPTAPI (\<lambda>body. Some [body]) (\<lambda>s. Some financialAnalysis) (Response 200 ''{}'') =
     Inr ?result"
    by (simp add: callGPTAPI_def decodeContent_def extractJSON_def stripFences_def TrimSpace_def
        TrimPrefix_def TrimSuffix_def isSpace_def suffix_to_prefix recompute_def
        financialAnalysis_def calculateTotalScore_def countRelevantCriteria_def
        getClassificationFromScore_def go_add_def go_mul_def wrap64_def)
  have rubric: "\<forall>v\<in>set (presentScores (Scores ?result)). 1 \<le> v \<and> v \<le> 5"
    by (simp add: presentScores_def financialAnalysis_def)
  from total_score_is_sum_of_present_scores
    [of "\<lambda>body. Some [body]" "\<lambda>s. Some financialAnalysis" "Response 200 ''{}''" ?result 0,
      THEN conjunct1, THEN mp, OF run, THEN conjunct2, THEN conjunct2, THEN mp, OF rubric]
    run rubric
  show ?thesis by (simp add: list_all_iff)
qed

text \<open>
  The claim as stated speaks of the sum for every reply that is decoded. The validator
  puts no bound on a score: with the scores \<open>2^63 - 1\<close> and 1 the sum is \<open>2^63\<close>, and the
  stored total is \<open>-2^63\<close>.
\<close>

theorem total_score_wraps_around:
  "callGPTAPI (\<lambda>body. Some [body]) (\<lambda>s. Some largeScoreAnalysis) (Response 200 ''{}'') =
     Inr (largeScoreAnalysis\<lparr>Scores := (Scores largeScoreAnalysis)
            \<lparr>TotalScore := - 9223372036854775808\<rparr>, Classification := ''Weak''\<rparr>) \<and>
   sum_list (presentScores (Scores (largeScoreAnalysis\<lparr>Scores := (Scores largeScoreAnalysis)
            \<lparr>TotalScore := - 9223372036854775808\<rparr>, Classification := ''Weak''\<rparr>))) =
     9223372036854775808"
proof -
  have t: "calculateTotalScore (Scores largeScoreAnalysis) = - 9223372036854775808"
    by (simp add: calculateTotalScore_def largeScoreAnalysis_def go_add_def wrap64_def)
  have n: "countRelevantCriteria (Scores largeScoreAnalysis) = 2"
    by (simp add: countRelevantCriteria_def largeScoreAnalysis_def)
  have c: "getClassificationFromScore (- 9223372036854775808) 2 = ''Weak''"
    by (simp add: getClassificationFromScore_def go_mul_def wrap64_def percentage_10)
  have r: "recompute largeScoreAnalysis =
      largeScoreAnalysis\<lparr>Scores := (Scores largeScoreAnalysis)
        \<lparr>TotalScore := - 9223372036854775808\<rparr>, Classification := ''Weak''\<rparr>"
    by (simp add: recompute_def Let_def t n c)
  have s: "sum_list (presentScores (Scores largeScoreAnalysis)) = 9223372036854775808"
    by (simp add: presentScores_def largeScoreAnalysis_def)
  show ?thesis
    by (simp add: callGPTAPI_def decodeContent_def extractJSON_def stripFences_def TrimSpace_def
        TrimPrefix_def TrimSuffix_def isSpace_def suffix_to_prefix r s)
qed

text \<open>
  Claim C7. \<open>GenerateSessionSummary\<close> on the empty list of analyses returns the error
  "no analyses provided" and no summary.
\<close>

theorem empty_summary_is_an_error:
  "GenerateSessionSummary [] now = Inl NoAnalysesProvided \<and>
   (\<forall>summary. GenerateSessionSummary [] now \<noteq> Inr summary)"
  by (simp add: GenerateSessionSummary_def)

text \<open>
  Claim C10. For a level other than "easy", "medium", "hard" and the empty string,
  \<open>SelectQuestionsForSession\<close> returns the empty sequence, whatever the bank holds.
\<close>

theorem unknown_level_selects_nothing:
  "level \<notin> {''easy'', ''medium'', ''hard'', []} \<Longrightarrow>
     SelectQuestionsForSession R QuestionsByCategory level g = []"
  by (simp add: SelectQuestionsForSession_def)

theorem unknown_level_selects_nothing_witness:
  "''EASY'' \<notin> {''easy'', ''medium'', ''hard'', []} \<and>
   SelectQuestionsForSession lastFirstRand exampleBank ''EASY'' () = []"
proof -
  have h: "''EASY'' \<notin> {''easy'', ''medium'', ''hard'', []}" by simp
  from unknown_level_selects_nothing [OF h, of lastFirstRand exampleBank "()"] h
  show ?thesis by simp
qed

text \<open>
  Claim C4, amended. Let the reply be the content of the first choice of a response with
  status 200.
  \<^item> If the reply is some prose without an opening brace, then an object text (an opening
    brace, a body whose braces are balanced when counted byte by byte, a closing brace),
    then anything, fenced or not, the extraction yields exactly the object text, and when
    the JSON decoder accepts it \<open>callGPTAPI\<close> returns the decoded analysis with total and
    classification recomputed.
  \<^item> If the reply has no opening brace, \<open>callGPTAPI\<close> returns the error "no JSON object
    found in response".
  \<^item> If the first opening brace of the reply is never closed, \<open>callGPTAPI\<close> returns the
    error "unmatched braces in JSON response".
  Both errors are decode errors and differ from every transport error.
\<close>

theorem reply_object_is_extracted:
  assumes "unmarshalResponse body = Some (content # others)"
  shows "(\<forall>pre obj post analysis.
            content = pre @ obj @ post \<and> CHR ''{'' \<notin> set pre \<and> bracedObject obj \<and>
            unmarshalAnalysis obj = Some analysis \<longrightarrow>
              extractJSON (stripFences content) = Inr obj \<and>
              callGPTAPI unmarshalResponse unmarshalAnalysis (Response 200 body) =
                Inr (recompute analysis)) \<and>
         (CHR ''{'' \<notin> set content \<longrightarrow>
            callGPTAPI unmarshalResponse unmarshalAnalysis (Response 200 body) =
              Inl NoJSONObjectFound) \<and>
         (\<forall>pre tail.
            content = pre @ CHR ''{'' # tail \<and> CHR ''{'' \<notin> set pre \<and> staysOpen 1 tail \<longrightarrow>
              callGPTAPI unmarshalResponse unmarshalAnalysis (Response 200 body) =
                Inl UnmatchedBraces) \<and>
         decode_error NoJSONObjectFound \<and> \<not> transport_error NoJSONObjectFound \<and>
         decode_error UnmatchedBraces \<and> \<not> transport_error UnmatchedBraces"
proof -
  note run = callGPTAPI_content [of unmarshalResponse body content others, OF assms]
  show ?thesis
  proof (intro conjI allI impI)
  fix pre obj post analysis
  assume h: "content = pre @ obj @ post \<and> CHR ''{'' \<notin> set pre \<and> bracedObject obj \<and>
            unmarshalAnalysis obj = Some analysis"
  then obtain b where b: "obj = CHR ''{'' # b @ ''}''" "balancedFrom 0 b"
    by (auto elim: bracedObjectE)
  from h b show x: "extractJSON (stripFences content) = Inr obj"
    using stripFences_object [of pre b post] by simp
  from h x show "callGPTAPI unmarshalResponse unmarshalAnalysis (Response 200 body) =
                Inr (recompute analysis)"
    by (simp add: run decodeContent_def)
next
  assume "CHR ''{'' \<notin> set content"
  then show "callGPTAPI unmarshalResponse unmarshalAnalysis (Response 200 body) =
              Inl NoJSONObjectFound"
    by (simp add: run decodeContent_def stripFences_no_brace)
next
  fix pre tail
  assume "content = pre @ CHR ''{'' # tail \<and> CHR ''{'' \<notin> set pre \<and> staysOpen 1 tail"
  then show "callGPTAPI unmarshalResponse unmarshalAnalysis (Response 200 body) =
                Inl UnmatchedBraces"
    by (simp add: run decodeContent_def stripFences_unmatched)
  qed (simp_all add: decode_error_def)
qed

theorem reply_object_is_extracted_witness:
  \<open>callGPTAPI (\<lambda>body. Some [body]) onlyObjectDecoder (Response 200 fencedReply) =
      Inr (recompute financialAnalysis) \<and>
    callGPTAPI (\<lambda>body. Some [body]) onlyObjectDecoder (Response 200 ''I cannot evaluate this.'') =
      Inl NoJSONObjectFound \<and>
    callGPTAPI (\<lambda>body. Some [body]) onlyObjectDecoder (Response 200 ''```json {"scores":{ ```'') =
      Inl UnmatchedBraces\<close>
proof -
  let ?dec = "\<lambda>body :: string. Some [body]"
  have 1: \<open>fencedReply = (''Here is my evaluation:'' @ [CHR 0x0A] @ ''```json'' @ [CHR 0x0A])
      @ ''{"scores":{}}'' @ ([CHR 0x0A] @ ''```'' @ [CHR 0x0A] @ ''Good luck!'') \<and>
      CHR ''{'' \<notin> set (''Here is my evaluation:'' @ [CHR 0x0A] @ ''```json'' @ [CHR 0x0A]) \<and>
      bracedObject ''{"scores":{}}'' \<and>
      onlyObjectDecoder ''{"scores":{}}'' = Some financialAnalysis\<close>
    by (simp add: fencedReply_def bracedObject_def braceStep_def onlyObjectDecoder_def)
  have 2: "CHR ''{'' \<notin> set ''I cannot evaluate this.''" by simp
  have 3: \<open>''```json {"scores":{ ```'' = ''```json '' @ CHR ''{'' # ''"scores":{ ```'' \<and>
      CHR ''{'' \<notin> set ''```json '' \<and> staysOpen 1 ''"scores":{ ```''\<close>
    by (simp add: braceStep_def)
  have a: "callGPTAPI ?dec onlyObjectDecoder (Response 200 fencedReply) =
      Inr (recompute financialAnalysis)"
    using reply_object_is_extracted [where unmarshalResponse = ?dec and body = fencedReply
        and content = fencedReply and others = "[]" and unmarshalAnalysis = onlyObjectDecoder,
        THEN conjunct1, rule_format, OF _ 1]
    by simp
  have b: "callGPTAPI ?dec onlyObjectDecoder (Response 200 ''I cannot evaluate this.'') =
      Inl NoJSONObjectFound"
    using reply_object_is_extracted [where unmarshalResponse = ?dec and body = "''I cannot evaluate this.''"
        and content = "''I cannot evaluate this.''" and others = "[]"
        and unmarshalAnalysis = onlyObjectDecoder,
        THEN conjunct2, THEN conjunct1, rule_format, OF _ 2]
    by simp
  have c: \<open>callGPTAPI ?dec onlyObjectDecoder (Response 200 ''```json {"scores":{ ```'') =
      Inl UnmatchedBraces\<close>
    using reply_object_is_extracted [where unmarshalResponse = ?dec and body = \<open>''```json {"scores":{ ```''\<close>
        and content = \<open>''```json {"scores":{ ```''\<close> and others = "[]"
        and unmarshalAnalysis = onlyObjectDecoder,
        THEN conjunct2, THEN conjunct2, THEN conjunct1, rule_format, OF _ 3]
    by simp
  from a b c show ?thesis by simp
qed

text \<open>
  The claim as stated lets any prose precede the object. An opening brace in that prose is
  taken for the start of the object: the reply below holds one object with balanced
  braces, which the decoder accepts, and yet \<open>callGPTAPI\<close> fails, because the text that was
  extracted is \<open>{draft}\<close>.
\<close>

theorem brace_in_leading_prose_breaks_extraction:
  \<open>bracedObject ''{"scores":{}}'' \<and>
    onlyObjectDecoder ''{"scores":{}}'' = Some financialAnalysis \<and>
    extractJSON (stripFences (''Scores {draft}: '' @ ''{"scores":{}}'' @ '' Good luck!'')) = Inr ''{draft}'' \<and>
    callGPTAPI (\<lambda>body. Some [body]) onlyObjectDecoder
      (Response 200 (''Scores {draft}: '' @ ''{"scores":{}}'' @ '' Good luck!'')) = Inl FailedToParseAnalysis\<close>
  by (simp add: bracedObject_def braceStep_def onlyObjectDecoder_def callGPTAPI_def
      decodeContent_def extractJSON_def stripFences_def TrimSpace_def TrimPrefix_def
      TrimSuffix_def isSpace_def suffix_to_prefix)

text \<open>
  Claim C2, amended. Whenever \<open>callGPTAPI\<close> returns an analysis, its classification is the
  tier that the threshold table gives for the recomputed total and the number of criteria
  that are not null: "Weak" when no criterion is present; for 3, 4 and 5 criteria the
  cuts 13/10/7, 17/13/9 and 21/17/12; otherwise (1, 2, 6 or 7 criteria) "Excellent" from
  85 percent of the maximum, "Good" from 70 percent, "Average" from 50 percent, else
  "Weak". The classification in the decoded reply has no influence on what \<open>callGPTAPI\<close>
  returns, be it an analysis or an error: replacing it by any \<open>c\<close> gives the same outcome.
\<close>

theorem classification_follows_table:
  "(callGPTAPI unmarshalResponse unmarshalAnalysis exchange = Inr result \<longrightarrow>
      Classification result =
        tier (TotalScore (Scores result)) (countRelevantCriteria (Scores result))) \<and>
   callGPTAPI unmarshalResponse (\<lambda>s. map_option (withClassification c) (unmarshalAnalysis s))
      exchange =
     callGPTAPI unmarshalResponse unmarshalAnalysis exchange"
proof (intro conjI impI)
  assume "callGPTAPI unmarshalResponse unmarshalAnalysis exchange = Inr result"
  then obtain analysis where "result = recompute analysis"
    by (rule callGPTAPI_recompute)
  then show "Classification result =
        tier (TotalScore (Scores result)) (countRelevantCriteria (Scores result))"
    by (simp only: recompute_tier)
next
  show "callGPTAPI unmarshalResponse
      (\<lambda>s. map_option (withClassification c) (unmarshalAnalysis s)) exchange =
     callGPTAPI unmarshalResponse unmarshalAnalysis exchange"
    by (rule callGPTAPI_withClassification)
qed

theorem classification_follows_table_witness:
  "callGPTAPI (\<lambda>body. Some [body]) (\<lambda>s. Some financialAnalysis) (Response 200 ''{}'') =
     Inr (recompute financialAnalysis) \<and>
   Classification (recompute financialAnalysis) = ''Excellent'' \<and>
   tier (TotalScore (Scores (recompute financialAnalysis)))
     (countRelevantCriteria (Scores (recompute financialAnalysis))) = ''Excellent''"
proof -
  have run: "callGPTAPI (\<lambda>body. Some [body]) (\<lambda>s. Some financialAnalysis) (Response 200 ''{}'') =
     Inr (recompute financialAnalysis)"
    by (simp add: callGPTAPI_def decodeContent_def extractJSON_def stripFences_def TrimSpace_def
        TrimPrefix_def TrimSuffix_def isSpace_def suffix_to_prefix)
  have c: "Classification (recompute financialAnalysis) = ''Excellent''"
    by (simp add: recompute_def financialAnalysis_def calculateTotalScore_def
        countRelevantCriteria_def getClassificationFromScore_def go_add_def go_mul_def
        wrap64_def)
  from classification_follows_table
    [where unmarshalResponse = "\<lambda>body. Some [body]" and unmarshalAnalysis = "\<lambda>s. Some financialAnalysis"
      and exchange = "Response 200 ''{}''" and result = "recompute financialAnalysis" and c = "[]",
      THEN conjunct1, rule_format, OF run] run c
  show ?thesis by simp
qed

text \<open>
  The table of the claim has no row for an analysis without criteria; its last row would
  make it "Excellent", since the total 0 reaches 85 percent of the maximum 0. The source
  returns "Weak".
\<close>

theorem no_criterion_is_weak:
  "callGPTAPI (\<lambda>body. Some [body]) (\<lambda>s. Some nullAnalysis) (Response 200 ''{}'') =
     Inr (nullAnalysis\<lparr>Classification := ''Weak''\<rparr>) \<and>
   TotalScore (Scores (nullAnalysis\<lparr>Classification := ''Weak''\<rparr>)) = 0 \<and>
   countRelevantCriteria (Scores (nullAnalysis\<lparr>Classification := ''Weak''\<rparr>)) = 0 \<and>
   claimedTier 0 0 = ''Excellent''"
  by (simp add: callGPTAPI_def decodeContent_def extractJSON_def stripFences_def TrimSpace_def
      TrimPrefix_def TrimSuffix_def isSpace_def suffix_to_prefix recompute_def nullAnalysis_def
      calculateTotalScore_def countRelevantCriteria_def getClassificationFromScore_def
      go_add_def go_mul_def wrap64_def claimedTier_def tierByShare_def)

text \<open>
  Claim C6. The criterion count of \<open>ScoreToPercentage\<close> is the number of criteria that
  were evaluated, a number from 0 to 7 (\<open>countRelevantCriteria\<close> yields no other). For
  every count \<open>n\<close> from 1 to 7, \<open>ScoreToPercentage (n * 1) n = 0\<close> and
  \<open>ScoreToPercentage (n * 5) n = 100\<close>. For every count, \<open>ScoreToPercentage\<close> does not
  decrease when the score grows. A score outside \<open>[n * 1, n * 5]\<close> gives the value of the
  nearest bound. \<open>ScoreToPercentage score 0 = 0\<close> for every score.
\<close>

theorem score_to_percentage:
  "(\<forall>n. 1 \<le> n \<and> n \<le> 7 \<longrightarrow>
      ScoreToPercentage (n * 1) n = 0 \<and> ScoreToPercentage (n * 5) n = 100) \<and>
   (\<forall>n s s'. 0 \<le> n \<and> n \<le> 7 \<and> s \<le> s' \<longrightarrow> ScoreToPercentage s n \<le> ScoreToPercentage s' n) \<and>
   (\<forall>n score. 1 \<le> n \<and> n \<le> 7 \<longrightarrow>
      ScoreToPercentage score n = ScoreToPercentage (max (n * 1) (min score (n * 5))) n) \<and>
   (\<forall>score. ScoreToPercentage score 0 = 0) \<and>
   (\<forall>scores. 0 \<le> countRelevantCriteria scores \<and> countRelevantCriteria scores \<le> 7)"
proof (intro conjI allI impI)
  fix n :: int
  assume "1 \<le> n \<and> n \<le> 7"
  then show "ScoreToPercentage (n * 1) n = 0"
    by (intro ScoreToPercentage_min) simp_all
next
  fix n :: int
  assume "1 \<le> n \<and> n \<le> 7"
  then show "ScoreToPercentage (n * 5) n = 100"
    by (intro ScoreToPercentage_max) simp_all
next
  fix n s s' :: int
  assume a: "0 \<le> n \<and> n \<le> 7 \<and> s \<le> s'"
  show "ScoreToPercentage s n \<le> ScoreToPercentage s' n"
  proof (cases "n = 0")
    case True
    then show ?thesis by (simp add: ScoreToPercentage_zero)
  next
    case False
    with a show ?thesis by (intro ScoreToPercentage_mono) simp_all
  qed
next
  fix n score :: int
  assume "1 \<le> n \<and> n \<le> 7"
  then show "ScoreToPercentage score n = ScoreToPercentage (max (n * 1) (min score (n * 5))) n"
    by (intro ScoreToPercentage_clamp) simp_all
next
  fix score :: int
  show "ScoreToPercentage score 0 = 0"
    by (rule ScoreToPercentage_zero)
next
  fix scores
  show "0 \<le> countRelevantCriteria scores" "countRelevantCriteria scores \<le> 7"
    by (rule countRelevantCriteria_range)+
qed

theorem score_to_percentage_witness:
  "(1::int) \<le> 7 \<and> (7::int) \<le> 7 \<and> ScoreToPercentage (7 * 1) 7 = 0 \<and>
   ScoreToPercentage (7 * 5) 7 = 100 \<and>
   (21::int) \<le> 28 \<and> ScoreToPercentage 21 7 \<le> ScoreToPercentage 28 7 \<and>
   ScoreToPercentage 21 7 = 50 \<and> ScoreToPercentage 28 7 = 75 \<and>
   ScoreToPercentage 40 7 = ScoreToPercentage (max (7 * 1) (min 40 (7 * 5))) 7"
proof -
  have h: "(1::int) \<le> 7 \<and> (7::int) \<le> 7" "(0::int) \<le> 7 \<and> (7::int) \<le> 7 \<and> (21::int) \<le> 28"
    by simp_all
  have v: "ScoreToPercentage 21 7 = 50" "ScoreToPercentage 28 7 = 75"
    by (simp_all add: ScoreToPercentage_def go_mul_def go_sub_def wrap64_def float_eval)
  note t = score_to_percentage
  from t [THEN conjunct1, rule_format, OF h(1)]
    t [THEN conjunct2, THEN conjunct1, rule_format, OF h(2)]
    t [THEN conjunct2, THEN conjunct2, THEN conjunct1, rule_format, OF h(1), of 40]
    v
  show ?thesis by simp
qed

text \<open>
  Claim C8. The grade of a session is "A" exactly when the mean total is at least 85
  percent of the maximum (5 times the criteria count), "B" from 70 percent, "C" from 50
  percent, "D" below. \<open>getGradeFromScore\<close> announces these bands in its comment and then
  truncates both sides: the mean by \<^verbatim>\<open>int(avgScore)\<close> and each threshold by
  \<^verbatim>\<open>int(float64(maxScore) * 0.85)\<close>. Two analyses with seven criteria and the stored total
  29 each have the mean 29, which is 82.9 percent of 35; the summary carries the grade
  "A", where the rule gives "B" and \<open>getClassificationFromScore\<close> says "Good" for the same
  score.
\<close>

theorem grade_a_below_85_percent:
  "map_sum id (\<lambda>summary. (AverageScore summary, OverallGrade summary))
      (GenerateSessionSummary [recordOf scores29, recordOf scores29] 0) = Inr (29, ''A'') \<and>
   percentGrade 29 (7 * 5) = ''B'' \<and>
   getClassificationFromScore 29 7 = ''Good''"
proof -
  have s: "sumScores [recordOf scores29, recordOf scores29] (0, 0) = (58, 14)"
    by (simp add: recordOf_def scores29_def countRelevantCriteria_def go_add_def wrap64_def)
  have a: "float64 (float64 58 / float64 2) = 29"
    by (simp add: float_eval)
  have g: "getGradeFromScore (go_int 29) 7 = ''A''"
    by (simp add: getGradeFromScore_def go_mul_def wrap64_def go_int_def float_eval)
  have c: "getClassificationFromScore 29 7 = ''Good''"
    by (simp add: getClassificationFromScore_def go_mul_def wrap64_def percentage_35)
  from GenerateSessionSummary_grade [OF _ s, of 0] a g
  have "map_sum id (\<lambda>summary. (AverageScore summary, OverallGrade summary))
      (GenerateSessionSummary [recordOf scores29, recordOf scores29] 0) = Inr (29, ''A'')"
    by (simp add: go_quot_def)
  then show ?thesis
    by (simp add: percentGrade_def c)
qed

text \<open>
  Claim C9, amended. \<open>LoadQuestions\<close> succeeds exactly when the file can be read, its
  content can be decoded, and every category of the selection rules is a key of the
  decoded mapping, with an empty list or not; in every other case it returns an error. On
  success the bank is the decoded mapping. When the file cannot be read or decoded, the
  bank is left as it was. Once the file is decoded, the bank is the decoded mapping, also
  when a required category is missing and the call returns an error.
\<close>

theorem load_questions:
  assumes "set rangeOrder = set requiredCategories"
  shows "(fst (LoadQuestions readFile unmarshal rangeOrder path Q) = None \<longleftrightarrow>
      (\<exists>data categories. readFile path = Some data \<and> unmarshal data = Some categories \<and>
         (\<forall>category\<in>set requiredCategories. categories category \<noteq> None))) \<and>
    (fst (LoadQuestions readFile unmarshal rangeOrder path Q) = None \<longrightarrow>
      (\<exists>data. readFile path = Some data \<and>
         unmarshal data = Some (snd (LoadQuestions readFile unmarshal rangeOrder path Q)))) \<and>
    (readFile path = None \<or> (\<exists>data. readFile path = Some data \<and> unmarshal data = None) \<longrightarrow>
      fst (LoadQuestions readFile unmarshal rangeOrder path Q) \<noteq> None \<and>
      snd (LoadQuestions readFile unmarshal rangeOrder path Q) = Q) \<and>
    (\<forall>data categories. readFile path = Some data \<and> unmarshal data = Some categories \<longrightarrow>
      snd (LoadQuestions readFile unmarshal rangeOrder path Q) = categories)"
  using LoadQuestions_success [OF assms, of readFile unmarshal path Q]
    LoadQuestions_bank [of readFile unmarshal rangeOrder path Q]
    LoadQuestions_unread [of readFile path unmarshal rangeOrder Q]
    LoadQuestions_decoded [of readFile path _ unmarshal _ rangeOrder Q]
  by blast

theorem load_questions_witness:
  "set (rev requiredCategories) = set requiredCategories \<and>
   LoadQuestions (\<lambda>path. Some ''{}'') (\<lambda>data. Some exampleBank) (rev requiredCategories)
     ''questions.json'' Map.empty = (None, exampleBank) \<and>
   fst (LoadQuestions (\<lambda>path. Some ''{}'') (\<lambda>data. Some Map.empty) (rev requiredCategories)
     ''questions.json'' Map.empty) \<noteq> None \<and>
   LoadQuestions (\<lambda>path. None) (\<lambda>data. Some exampleBank) (rev requiredCategories)
     ''questions.json'' Map.empty = (Some ReadQuestionsFile, Map.empty)"
proof -
  have h: "set (rev requiredCategories) = set requiredCategories" by simp
  have ok: "\<exists>data categories. (\<lambda>path. Some ''{}'') ''questions.json'' = Some data \<and>
      (\<lambda>data. Some exampleBank) data = Some categories \<and>
      (\<forall>category\<in>set requiredCategories. categories category \<noteq> None)"
    by (simp add: requiredCategories_def QuestionSelectionRules_def exampleBank_def)
  have bad: "\<not> (\<exists>data categories. (\<lambda>path. Some ''{}'') ''questions.json'' = Some data \<and>
      (\<lambda>data. Some Map.empty) data = Some categories \<and>
      (\<forall>category\<in>set requiredCategories. categories category \<noteq> None))"
    by (simp add: requiredCategories_def QuestionSelectionRules_def)
  have unread: "(\<lambda>path. None) ''questions.json'' = None \<or>
      (\<exists>data. (\<lambda>path. None) ''questions.json'' = Some data \<and> (\<lambda>data. Some exampleBank) data = None)"
    by simp
  note t = load_questions [OF h]
  from t [of "\<lambda>path. Some ''{}''" "\<lambda>data. Some exampleBank" "''questions.json''" Map.empty] ok
  have 1: "LoadQuestions (\<lambda>path. Some ''{}'') (\<lambda>data. Some exampleBank) (rev requiredCategories)
     ''questions.json'' Map.empty = (None, exampleBank)"
    by (metis (no_types, lifting) option.inject prod.collapse)
  from t [of "\<lambda>path. Some ''{}''" "\<lambda>data. Some Map.empty" "''questions.json''" Map.empty] bad
  have 2: "fst (LoadQuestions (\<lambda>path. Some ''{}'') (\<lambda>data. Some Map.empty) (rev requiredCategories)
     ''questions.json'' Map.empty) \<noteq> None"
    by blast
  from t [of "\<lambda>path. None" "\<lambda>data. Some exampleBank" "''questions.json''" Map.empty,
      THEN conjunct2, THEN conjunct2, THEN conjunct1, rule_format, OF unread]
  have 3: "LoadQuestions (\<lambda>path. None) (\<lambda>data. Some exampleBank) (rev requiredCategories)
     ''questions.json'' Map.empty = (Some ReadQuestionsFile, Map.empty)"
    by (simp add: LoadQuestions_def)
  from h 1 2 3 show ?thesis by simp
qed

text \<open>
  A file in which the required category "Purpose of Study" is present with an empty list
  is loaded without an error. A file that has only the category "Purpose of Study" is
  refused, and the bank, empty before the call, holds that category after it.
\<close>

theorem empty_category_loads:
  "emptyCategoryBank ''Purpose of Study'' = Some [] \<and>
   ''Purpose of Study'' \<in> set requiredCategories \<and>
   LoadQuestions (\<lambda>path. Some ''{}'') (\<lambda>data. Some emptyCategoryBank) requiredCategories
     ''questions.json'' Map.empty = (None, emptyCategoryBank) \<and>
   fst (LoadQuestions (\<lambda>path. Some ''{}'') (\<lambda>data. Some [''Purpose of Study'' \<mapsto> [''P1'']])
     requiredCategories ''questions.json'' Map.empty) \<noteq> None \<and>
   snd (LoadQuestions (\<lambda>path. Some ''{}'') (\<lambda>data. Some [''Purpose of Study'' \<mapsto> [''P1'']])
     requiredCategories ''questions.json'' Map.empty) = [''Purpose of Study'' \<mapsto> [''P1'']]"
  by (simp add: LoadQuestions_def emptyCategoryBank_def requiredCategories_def
      QuestionSelectionRules_def)

text \<open>
  Claim C3. For every level and every bank, the sequence that \<open>SelectQuestionsForSession\<close>
  returns has no two questions with the same text. The source records the texts it has
  selected "to avoid duplicates", and consults the record only for the extra question of
  the medium level and between the categories of the hard level. With the same text in
  every category the easy level returns it four times and the medium level six times;
  with a text that a category lists twice the hard level returns it twice. The generator
  of the evaluation keeps the contract of package \<^verbatim>\<open>math/rand\<close> (lemma
  \<open>rand_ok_lastFirstRand\<close>).
\<close>

theorem selection_repeats_a_text:
  "map Text (SelectQuestionsForSession lastFirstRand sameTextBank ''easy'' ()) =
     [''Why this program?'', ''Why this program?'', ''Why this program?'', ''Why this program?''] \<and>
   map Text (SelectQuestionsForSession lastFirstRand sameTextBank ''medium'' ()) =
     [''Why this program?'', ''Why this program?'', ''Why this program?'', ''Why this program?'',
      ''Why this program?'', ''Why this program?''] \<and>
   map Text (SelectQuestionsForSession lastFirstRand repeatedTextBank ''hard'' ()) =
     [''Why this program?'', ''Why this program?'']"
  by (simp add: select_eval sameTextBank_def repeatedTextBank_def)

text \<open>
  Claim C5, amended. Let the generator keep the contract of package \<^verbatim>\<open>math/rand\<close> and let
  the level be "hard" or empty.
  \<^item> When every one of the six categories lists at least two questions whose text no
    category before it lists, the selection has exactly 12 questions, exactly 2 of each
    category. This is so in particular when every category lists at least two questions
    and no text belongs to two categories.
  \<^item> For every bank the selection has at most 12 questions and at most 2 of each
    category.
  \<^item> Every pass of the loop appends as many questions of its category as the category
    has questions with a text that was not selected before, but at most 2; a category
    with fewer than 2 of them lowers only its own share.
\<close>

theorem hard_level_quota:
  assumes "rand_ok R" "level = ''hard'' \<or> level = []"
  shows "(enoughFresh Q {} allCategories \<longrightarrow>
            length (SelectQuestionsForSession R Q level g) = 12 \<and>
            (\<forall>c\<in>set allCategories.
               length (filter (\<lambda>q. Category q = c) (SelectQuestionsForSession R Q level g)) = 2)) \<and>
         (separate Q allCategories \<and> (\<forall>c\<in>set allCategories. 2 \<le> length (questionsOf Q c)) \<longrightarrow>
            enoughFresh Q {} allCategories) \<and>
         length (SelectQuestionsForSession R Q level g) \<le> 12 \<and>
         (\<forall>c. length (filter (\<lambda>q. Category q = c) (SelectQuestionsForSession R Q level g)) \<le> 2) \<and>
         (\<forall>category sel T g0. \<exists>new g'.
            hardCategory R Q category (sel, T, g0) = (sel @ new, T \<union> set (map Text new), g') \<and>
            length new = min 2 (length (filter (\<lambda>q. q \<notin> T) (questionsOf Q category))) \<and>
            (\<forall>q\<in>set new. Category q = category))"
proof -
  obtain sel T g' where h: "hardLoop R Q allCategories ([], {}, g) = (sel, T, g')"
    by (cases "hardLoop R Q allCategories ([], {}, g)")
  have s: "SelectQuestionsForSession R Q level g = sel"
    using assms(2) by (auto simp: SelectQuestionsForSession_def h)
  have six: "length allCategories = 6"
    by (simp add: allCategories_def)
  show ?thesis
  proof (intro conjI impI allI)
    assume "enoughFresh Q {} allCategories"
    from hardLoop_full [OF assms(1) this, where T = "{}" and sel = "[]" and g = g] h
    have f: "length sel = 2 * length allCategories"
      "\<And>c. length (filter (\<lambda>q. Category q = c) sel) = 2 * count_list allCategories c"
      by simp_all
    from f(1) show "length (SelectQuestionsForSession R Q level g) = 12"
      by (simp add: s six)
    from f(2) show "\<forall>c\<in>set allCategories.
        length (filter (\<lambda>q. Category q = c) (SelectQuestionsForSession R Q level g)) = 2"
      by (simp add: s count_allCategories)
  next
    assume "separate Q allCategories \<and> (\<forall>c\<in>set allCategories. 2 \<le> length (questionsOf Q c))"
    then show "enoughFresh Q {} allCategories"
      by (intro enoughFresh_separate distinct_categories) simp_all
  next
    from hardLoop_bound [OF assms(1), where Q = Q and cats = allCategories and sel = "[]"
        and T = "{}" and g = g] h
    have b: "length sel \<le> 2 * length allCategories"
      "\<And>c. length (filter (\<lambda>q. Category q = c) sel) \<le> 2 * count_list allCategories c"
      by simp_all
    from b(1) show "length (SelectQuestionsForSession R Q level g) \<le> 12"
      by (simp add: s six)
    fix c
    from b(2) [of c] show
      "length (filter (\<lambda>q. Category q = c) (SelectQuestionsForSession R Q level g)) \<le> 2"
      by (simp add: s count_allCategories split: if_splits)
  next
    fix category sel0 T0 g0
    from hardCategory_result [OF assms(1), where Q = Q and c = category and sel = sel0
        and T = T0 and g = g0]
    show "\<exists>new g'.
        hardCategory R Q category (sel0, T0, g0) = (sel0 @ new, T0 \<union> set (map Text new), g') \<and>
        length new = min 2 (length (filter (\<lambda>q. q \<notin> T0) (questionsOf Q category))) \<and>
        (\<forall>q\<in>set new. Category q = category)"
      by blast
  qed
qed

theorem hard_level_quota_witness:
  "rand_ok lastFirstRand \<and> enoughFresh exampleBank {} allCategories \<and>
   length (SelectQuestionsForSession lastFirstRand exampleBank ''hard'' ()) = 12 \<and>
   list_all (\<lambda>c. length (filter (\<lambda>q. Category q = c)
        (SelectQuestionsForSession lastFirstRand exampleBank ''hard'' ())) = 2) allCategories \<and>
   map Text (SelectQuestionsForSession lastFirstRand exampleBank ''hard'' ()) =
     [''P3'', ''P2'', ''A2'', ''A1'', ''U3'', ''U2'', ''F2'', ''F1'', ''G2'', ''G1'', ''I2'', ''I1'']"
proof -
  have l: "''hard'' = ''hard'' \<or> ''hard'' = []" by simp
  have e: "enoughFresh exampleBank {} allCategories"
    by (simp add: allCategories_def questionsOf_def exampleBank_def)
  have v: "map Text (SelectQuestionsForSession lastFirstRand exampleBank ''hard'' ()) =
     [''P3'', ''P2'', ''A2'', ''A1'', ''U3'', ''U2'', ''F2'', ''F1'', ''G2'', ''G1'', ''I2'', ''I1'']"
    by (simp add: select_eval exampleBank_def)
  from hard_level_quota [OF rand_ok_lastFirstRand l, of exampleBank "()",
      THEN conjunct1, rule_format, OF e] e v rand_ok_lastFirstRand
  show ?thesis by (simp add: list_all_iff)
qed

text \<open>
  Every category of the bank below lists two questions, the same two. The first category
  uses both, and for the five categories after it nothing is left: the hard level returns
  2 questions, not 12.
\<close>

theorem shared_texts_shrink_the_hard_level:
  "rand_ok lastFirstRand \<and>
   list_all (\<lambda>c. 2 \<le> length (questionsOf sharedBank c)) allCategories \<and>
   map Text (SelectQuestionsForSession lastFirstRand sharedBank ''hard'' ()) = [''Q2'', ''Q1''] \<and>
   length (SelectQuestionsForSession lastFirstRand sharedBank ''hard'' ()) = 2"
  using rand_ok_lastFirstRand by (simp add: select_eval sharedBank_def questionsOf_def)

end
